theory Spec2Isabelle
  imports Complex_Main "HOL-Library.Multiset" "HOL-Library.Sublist"
begin

section \<open>Strings and numbers of the source language\<close>

text \<open>
  The sources are TypeScript. A JavaScript string is a sequence of UTF-16 code units; the
  model uses \<^typ>\<open>string\<close>, whose characters are read as the code units U+0000 to U+00FF
  (Latin-1). The character classes below are the restrictions of the JavaScript classes
  to that range.

  JavaScript numbers are IEEE doubles. The model computes counts in \<^typ>\<open>nat\<close> and
  \<^typ>\<open>int\<close> and ratios in \<^typ>\<open>rat\<close>, exactly. The counts of the source are far
  below the range in which doubles cease to be exact integers. A quotient, or a product
  with a decimal constant, is rounded by the source and not by the model; that can change
  a comparison only where the exact value lies within rounding distance of the threshold.
\<close>

definition whitespaceChars :: "char list" where
  "whitespaceChars = [CHR 0x09, CHR 0x0A, CHR 0x0B, CHR 0x0C, CHR 0x0D, CHR 0x20, CHR 0xA0]"

definition isSpace :: "char \<Rightarrow> bool" where
  \<comment> \<open>the class \<open>\\s\<close>, which is also what \<open>trim\<close> strips\<close>
  "isSpace c = (c \<in> set whitespaceChars)"

definition isLineTerminator :: "char \<Rightarrow> bool" where
  "isLineTerminator c = (c = CHR 0x0A \<or> c = CHR 0x0D)"

definition isDigit :: "char \<Rightarrow> bool" where
  \<comment> \<open>the class \<open>\\d\<close>\<close>
  "isDigit c = (c \<in> set ''0123456789'')"

definition asciiUpper :: "char list" where
  "asciiUpper = ''ABCDEFGHIJKLMNOPQRSTUVWXYZ''"

definition asciiLower :: "char list" where
  "asciiLower = ''abcdefghijklmnopqrstuvwxyz''"

definition isWordChar :: "char \<Rightarrow> bool" where
  \<comment> \<open>the class \<open>\\w\<close>\<close>
  "isWordChar c = (c \<in> set (asciiLower @ asciiUpper @ ''0123456789_''))"

definition latinUpper :: "char list" where
  "latinUpper = [CHR 0xC0, CHR 0xC1, CHR 0xC2, CHR 0xC3, CHR 0xC4, CHR 0xC5, CHR 0xC6, CHR 0xC7,
     CHR 0xC8, CHR 0xC9, CHR 0xCA, CHR 0xCB, CHR 0xCC, CHR 0xCD, CHR 0xCE, CHR 0xCF,
     CHR 0xD0, CHR 0xD1, CHR 0xD2, CHR 0xD3, CHR 0xD4, CHR 0xD5, CHR 0xD6,
     CHR 0xD8, CHR 0xD9, CHR 0xDA, CHR 0xDB, CHR 0xDC, CHR 0xDD, CHR 0xDE]"

definition latinLower :: "char list" where
  "latinLower = [CHR 0xE0, CHR 0xE1, CHR 0xE2, CHR 0xE3, CHR 0xE4, CHR 0xE5, CHR 0xE6, CHR 0xE7,
     CHR 0xE8, CHR 0xE9, CHR 0xEA, CHR 0xEB, CHR 0xEC, CHR 0xED, CHR 0xEE, CHR 0xEF,
     CHR 0xF0, CHR 0xF1, CHR 0xF2, CHR 0xF3, CHR 0xF4, CHR 0xF5, CHR 0xF6,
     CHR 0xF8, CHR 0xF9, CHR 0xFA, CHR 0xFB, CHR 0xFC, CHR 0xFD, CHR 0xFE]"

definition toLowerChar :: "char \<Rightarrow> char" where
  "toLowerChar c =
     (case map_of (zip (asciiUpper @ latinUpper) (asciiLower @ latinLower)) c of
        Some l \<Rightarrow> l | None \<Rightarrow> c)"

definition toLowerCase :: "string \<Rightarrow> string" where
  "toLowerCase s = map toLowerChar s"

definition isLetter :: "char \<Rightarrow> bool" where
  \<comment> \<open>the class \<open>\\p{L}\<close>\<close>
  "isLetter c = (c \<in> set (asciiLower @ asciiUpper @ latinLower @ latinUpper
                   @ [CHR 0xAA, CHR 0xB5, CHR 0xBA, CHR 0xDF, CHR 0xFF]))"

definition isNumber :: "char \<Rightarrow> bool" where
  \<comment> \<open>the class \<open>\\p{N}\<close>\<close>
  "isNumber c = (c \<in> set (''0123456789'' @ [CHR 0xB2, CHR 0xB3, CHR 0xB9, CHR 0xBC, CHR 0xBD, CHR 0xBE]))"

definition trim :: "string \<Rightarrow> string" where
  "trim s = rev (dropWhile isSpace (rev (dropWhile isSpace s)))"

fun isPrefixOf :: "string \<Rightarrow> string \<Rightarrow> bool" where
  "isPrefixOf [] s = True"
| "isPrefixOf (p # ps) [] = False"
| "isPrefixOf (p # ps) (c # cs) = (p = c \<and> isPrefixOf ps cs)"

fun includesStr :: "string \<Rightarrow> string \<Rightarrow> bool" where
  \<comment> \<open>\<open>s.includes(sub)\<close>\<close>
  "includesStr [] sub = (sub = [])"
| "includesStr (c # cs) sub = (isPrefixOf sub (c # cs) \<or> includesStr cs sub)"

fun splitOn :: "char \<Rightarrow> string \<Rightarrow> string list" where
  \<comment> \<open>\<open>s.split(sep)\<close> for a one-character separator: empty pieces are kept\<close>
  "splitOn sep [] = [[]]"
| "splitOn sep (c # cs) =
     (if c = sep then [] # splitOn sep cs
      else (case splitOn sep cs of w # ws \<Rightarrow> (c # w) # ws | [] \<Rightarrow> [[c]]))"

definition setAdd :: "'a \<Rightarrow> 'a list \<Rightarrow> 'a list" where
  \<comment> \<open>\<open>Set.add\<close>: a \<open>Set\<close> is kept as the list of its members in insertion order\<close>
  "setAdd x s = (if x \<in> set s then s else s @ [x])"

definition newSet :: "'a list \<Rightarrow> 'a list" where
  \<comment> \<open>\<open>new Set(xs)\<close>\<close>
  "newSet xs = fold setAdd xs []"

definition jsRound :: "rat \<Rightarrow> int" where
  \<comment> \<open>\<open>Math.round\<close>: to the nearest integer, halves upwards\<close>
  "jsRound x = \<lfloor>x + 1 / 2\<rfloor>"

section \<open>dice-roller: constants\<close>

definition CORE_MESSAGE_THRESHOLD :: rat where
  "CORE_MESSAGE_THRESHOLD = 8 / 10"

definition VARIABLE_MESSAGE_THRESHOLD :: rat where
  "VARIABLE_MESSAGE_THRESHOLD = 3 / 10"

definition STOP_WORDS :: "string list" where
  "STOP_WORDS = [
    ''the'', ''a'', ''an'', ''and'', ''or'', ''but'', ''in'', ''on'', ''at'', ''to'', ''for'', ''of'',
    ''with'', ''by'', ''from'', ''as'', ''is'', ''was'', ''are'', ''were'', ''been'', ''be'', ''have'',
    ''has'', ''had'', ''do'', ''does'', ''did'', ''will'', ''would'', ''could'', ''should'', ''may'',
    ''might'', ''must'', ''shall'', ''can'', ''need'', ''that'', ''which'', ''who'', ''whom'',
    ''this'', ''these'', ''those'', ''it'', ''its'', ''they'', ''them'', ''their'', ''our'', ''your'',
    ''his'', ''her'', ''we'', ''you'', ''i'', ''me'', ''my'', ''also'', ''more'', ''most'', ''other'',
    ''some'', ''such'', ''than'', ''too'', ''very'', ''just'', ''about'', ''into'', ''through'',
    ''during'', ''before'', ''after'', ''above'', ''below'', ''between'', ''under'', ''again'',
    ''further'', ''then'', ''once'', ''here'', ''there'', ''when'', ''where'', ''why'', ''how'',
    ''all'', ''each'', ''few'', ''any'', ''both'', ''only'', ''own'', ''same'', ''so'', ''because'',
    ''until'', ''while'']"

definition SYNONYM_GROUPS :: "string list list" where
  "SYNONYM_GROUPS = [
    [''product'', ''service'', ''solution'', ''offering'', ''platform''],
    [''customer'', ''client'', ''user'', ''consumer'', ''buyer''],
    [''quality'', ''excellent'', ''superior'', ''premium'', ''high-end''],
    [''price'', ''cost'', ''pricing'', ''value'', ''affordable''],
    [''fast'', ''quick'', ''rapid'', ''speedy'', ''efficient''],
    [''reliable'', ''dependable'', ''trustworthy'', ''stable'', ''consistent''],
    [''innovative'', ''creative'', ''novel'', ''cutting-edge'', ''advanced''],
    [''experience'', ''expertise'', ''knowledge'', ''skill'', ''proficiency''],
    [''support'', ''help'', ''assistance'', ''service'', ''care''],
    [''leader'', ''leading'', ''top'', ''best'', ''premier'', ''foremost''],
    [''recommend'', ''suggest'', ''advise'', ''propose''],
    [''benefit'', ''advantage'', ''strength'', ''asset''],
    [''issue'', ''problem'', ''challenge'', ''concern'', ''difficulty''],
    [''improve'', ''enhance'', ''optimize'', ''upgrade'', ''boost''],
    [''market'', ''industry'', ''sector'', ''field'', ''space'']]"

definition POSITIVE_INDICATORS :: "string list" where
  "POSITIVE_INDICATORS = [
    ''excellent'', ''best'', ''leading'', ''innovative'', ''expert'', ''trusted'',
    ''recommend'', ''superior'', ''outstanding'', ''proven'', ''reliable'', ''quality'',
    ''effective'', ''efficient'', ''top'', ''premier'', ''award'', ''recognized'',
    ''great'', ''perfect'', ''ideal'', ''exceptional'', ''remarkable'', ''impressive'']"

definition NEGATIVE_INDICATORS :: "string list" where
  "NEGATIVE_INDICATORS = [
    ''poor'', ''lacking'', ''inadequate'', ''failed'', ''problematic'', ''inferior'',
    ''weak'', ''limited'', ''concerning'', ''risk'', ''expensive'', ''difficult'',
    ''disappointing'', ''issue'', ''complaint'', ''alternative to'', ''avoid'',
    ''outdated'', ''slow'', ''unreliable'', ''buggy'', ''confusing'', ''frustrating'']"

section \<open>dice-roller: key-point similarity\<close>

function collapseWhitespace :: "string \<Rightarrow> string" where
  \<comment> \<open>\<open>.replace(/\\s+/g, ' ')\<close>: every maximal run of whitespace becomes one space\<close>
  "collapseWhitespace [] = []"
| "collapseWhitespace (c # cs) =
     (if isSpace c then CHR '' '' # collapseWhitespace (dropWhile isSpace cs)
      else c # collapseWhitespace cs)"
  by pat_completeness auto
termination
  by (relation "measure length") (auto simp: length_dropWhile_le less_Suc_eq_le)

definition normalizeKeyPoint :: "string \<Rightarrow> string" where
  "normalizeKeyPoint keyPoint =
     trim (collapseWhitespace
       (filter (\<lambda>c. isLetter c \<or> isNumber c \<or> isSpace c \<or> c = CHR ''-'') (toLowerCase keyPoint)))"

definition getSignificantWords :: "string \<Rightarrow> string list" where
  "getSignificantWords text =
     newSet (filter (\<lambda>w. length w > 2 \<and> w \<notin> set STOP_WORDS)
               (map toLowerCase (splitOn CHR '' '' text)))"

definition shareWordStem :: "string \<Rightarrow> string \<Rightarrow> bool" where
  \<comment> \<open>\<open>Math.floor(minLen * 0.6)\<close> is \<open>minLen * 6 div 10\<close>: 3, 3, 4, 4 for the lengths 5 to 8,
      and at least 5 from 9 on, where \<open>Math.min(5, _)\<close> cuts it\<close>
  "shareWordStem a b =
     (let minLen = min (length a) (length b) in
      if minLen < 5 then False
      else (let prefixLen = min 5 (minLen * 6 div 10) in take prefixLen a = take prefixLen b))"

definition areSynonyms :: "string \<Rightarrow> string \<Rightarrow> bool" where
  "areSynonyms a b = list_ex (\<lambda>group. a \<in> set group \<and> b \<in> set group) SYNONYM_GROUPS"

definition directOverlap :: "string list \<Rightarrow> string list \<Rightarrow> nat" where
  "directOverlap wordsA wordsB = length (filter (\<lambda>word. word \<in> set wordsB) wordsA)"

definition stemOverlap :: "string list \<Rightarrow> string list \<Rightarrow> nat" where
  \<comment> \<open>the inner loop breaks at the first hit: each word of A counts once\<close>
  "stemOverlap wordsA wordsB =
     length (filter (\<lambda>wordA. list_ex (\<lambda>wordB. wordA \<noteq> wordB \<and> shareWordStem wordA wordB) wordsB) wordsA)"

definition conceptOverlap :: "string list \<Rightarrow> string list \<Rightarrow> nat" where
  "conceptOverlap wordsA wordsB =
     length (filter (\<lambda>wordA. list_ex (\<lambda>wordB. wordA \<noteq> wordB \<and> areSynonyms wordA wordB) wordsB) wordsA)"

definition similarityOf :: "string list \<Rightarrow> string list \<Rightarrow> rat" where
  "similarityOf wordsA wordsB =
     (let totalOverlap = of_nat (directOverlap wordsA wordsB)
                         + of_nat (stemOverlap wordsA wordsB) * (8 / 10)
                         + of_nat (conceptOverlap wordsA wordsB) * (7 / 10);
          minWords = min (length wordsA) (length wordsB)
      in totalOverlap / of_nat minWords)"

definition areSimilarKeyPoints :: "string \<Rightarrow> string \<Rightarrow> bool" where
  "areSimilarKeyPoints a b =
     (let wordsA = getSignificantWords a; wordsB = getSignificantWords b in
      if length wordsA = 0 \<or> length wordsB = 0 then False
      else similarityOf wordsA wordsB \<ge> 3 / 10)"

section \<open>dice-roller: records\<close>

datatype Sentiment = Positive | Neutral | Negative

datatype SearchMode = Memory | Search

record SearchCitation =
  url :: string
  title :: string

record BrandMentionContext =
  position :: nat
  snippet :: string
  sentiment :: Sentiment

text \<open>
  \<open>ResponseData\<close>: the fields \<open>length\<close> and \<open>sentiment\<close> of the source are
  \<open>contentLength\<close> and \<open>responseSentiment\<close> here.
\<close>

record ResponseData =
  iteration :: nat
  content :: string
  contentLength :: nat
  estimatedTokens :: nat
  brandMentions :: nat
  brandMentionContexts :: "BrandMentionContext list"
  keyPoints :: "string list"
  responseSentiment :: Sentiment
  latencyMs :: nat
  timestamp :: string
  searchMode :: SearchMode
  citations :: "SearchCitation list option"

record VariableMessage =
  message :: string
  frequency :: int
  appearancePattern :: "nat list"

text \<open>The value returned by \<open>classifyKeyMessages\<close>; \<open>keyPointFrequency\<close> is a \<open>Record<string, number>\<close>.\<close>

record KeyMessages =
  coreStableMessages :: "string list"
  variableMessages :: "VariableMessage list"
  outliers :: "string list"
  keyPointFrequency :: "string \<Rightarrow> nat option"

section \<open>dice-roller: clustering and classification\<close>

text \<open>
  The local \<open>keyPointFrequency\<close> of \<open>classifyKeyMessages\<close> is a \<open>Map<string, Set<number>>\<close>:
  a list of pairs in insertion order, each \<open>Set\<close> a list in insertion order.
\<close>

type_synonym clusters = "(string \<times> nat list) list"

fun mapSet :: "'k \<Rightarrow> 'v \<Rightarrow> ('k \<times> 'v) list \<Rightarrow> ('k \<times> 'v) list" where
  \<comment> \<open>\<open>Map.set\<close>: a key that is present keeps its place and takes the new value\<close>
  "mapSet k v [] = [(k, v)]"
| "mapSet k v ((k', v') # m) = (if k' = k then (k, v) # m else (k', v') # mapSet k v m)"

fun addToFirstSimilar :: "string \<Rightarrow> nat \<Rightarrow> clusters \<Rightarrow> clusters option" where
  \<comment> \<open>the inner \<open>for ... of keyPointFrequency\<close> with its \<open>break\<close>; \<open>None\<close> is \<open>foundMatch = false\<close>\<close>
  "addToFirstSimilar normalized it [] = None"
| "addToFirstSimilar normalized it ((existing, iterations) # rest) =
     (if areSimilarKeyPoints normalized existing
      then Some ((existing, setAdd it iterations) # rest)
      else map_option (\<lambda>rest'. (existing, iterations) # rest')
             (addToFirstSimilar normalized it rest))"

definition addKeyPoint :: "nat \<Rightarrow> string \<Rightarrow> clusters \<Rightarrow> clusters" where
  "addKeyPoint it keyPoint cl =
     (let normalized = normalizeKeyPoint keyPoint in
      case addToFirstSimilar normalized it cl of
        Some cl' \<Rightarrow> cl'
      | None \<Rightarrow> mapSet normalized [it] cl)"

fun clusterLoop :: "nat \<Rightarrow> ResponseData list \<Rightarrow> clusters \<Rightarrow> clusters" where
  \<comment> \<open>\<open>for (let i = 0; i < responses.length; i++)\<close>, from index \<open>i\<close> on\<close>
  "clusterLoop i [] cl = cl"
| "clusterLoop i (r # rs) cl = clusterLoop (i + 1) rs (fold (addKeyPoint (i + 1)) (keyPoints r) cl)"

definition buildClusters :: "ResponseData list \<Rightarrow> clusters" where
  "buildClusters responses = clusterLoop 0 responses []"

definition frequencyAtLeast :: "nat \<Rightarrow> nat \<Rightarrow> rat \<Rightarrow> bool" where
  \<comment> \<open>\<open>count / totalIterations >= threshold\<close> (the count is \<open>cnt\<close> here); a positive count over 0 is \<open>Infinity\<close>,
      and 0 over 0 is \<open>NaN\<close>, for which the comparison is false\<close>
  "frequencyAtLeast cnt totalIterations threshold =
     (if totalIterations = 0 then 0 < cnt
      else threshold \<le> of_nat cnt / of_nat totalIterations)"

definition classifyCluster :: "nat \<Rightarrow> string \<times> nat list \<Rightarrow> KeyMessages \<Rightarrow> KeyMessages" where
  "classifyCluster totalIterations entry acc =
     (let keyPoint = fst entry; iterations = snd entry;
          cnt = length iterations;
          acc' = acc\<lparr>keyPointFrequency := (keyPointFrequency acc)(keyPoint \<mapsto> cnt)\<rparr>
      in if frequencyAtLeast cnt totalIterations CORE_MESSAGE_THRESHOLD
         then acc'\<lparr>coreStableMessages := coreStableMessages acc' @ [keyPoint]\<rparr>
         else if frequencyAtLeast cnt totalIterations VARIABLE_MESSAGE_THRESHOLD
         then acc'\<lparr>variableMessages := variableMessages acc' @
                [\<lparr>message = keyPoint,
                  frequency = jsRound (of_nat cnt / of_nat totalIterations * 100),
                  appearancePattern = sort iterations\<rparr>]\<rparr>
         else acc'\<lparr>outliers := outliers acc' @ [keyPoint]\<rparr>)"

definition noMessages :: KeyMessages where
  "noMessages = \<lparr>coreStableMessages = [], variableMessages = [], outliers = [],
                 keyPointFrequency = Map.empty\<rparr>"

definition classifyKeyMessages :: "ResponseData list \<Rightarrow> KeyMessages" where
  "classifyKeyMessages responses =
     (let totalIterations = length responses;
          keyPointFrequency = buildClusters responses
      in fold (classifyCluster totalIterations) keyPointFrequency noMessages)"

section \<open>dice-roller: statistics\<close>

definition calculateMean :: "rat list \<Rightarrow> rat" where
  "calculateMean values = (if length values = 0 then 0 else sum_list values / of_nat (length values))"

definition calculateVariance :: "rat list \<Rightarrow> rat" where
  "calculateVariance values =
     (if length values = 0 then 0
      else (let mean = calculateMean values in
            sum_list (map (\<lambda>v. (v - mean) ^ 2) values) / of_nat (length values)))"

definition calculateSemanticOverlap :: "string \<Rightarrow> string \<Rightarrow> int" where
  "calculateSemanticOverlap text1 text2 =
     (let words1 = getSignificantWords text1; words2 = getSignificantWords text2 in
      if length words1 = 0 \<or> length words2 = 0 then 0
      else (let intersection = newSet (filter (\<lambda>w. w \<in> set words2) words1);
                union = newSet (words1 @ words2)
            in jsRound (of_nat (length intersection) / of_nat (length union) * 100)))"

fun pairwiseOverlaps :: "ResponseData list \<Rightarrow> int list" where
  \<comment> \<open>the two nested loops over \<open>i < j\<close>, in their order\<close>
  "pairwiseOverlaps [] = []"
| "pairwiseOverlaps (r # rs) =
     map (\<lambda>r'. calculateSemanticOverlap (content r) (content r')) rs @ pairwiseOverlaps rs"

definition calculateAverageOverlap :: "ResponseData list \<Rightarrow> int" where
  "calculateAverageOverlap responses =
     (if length responses < 2 then 100
      else (let overlaps = pairwiseOverlaps responses;
                totalOverlap = sum_list overlaps;
                comparisons = length overlaps
            in if comparisons > 0 then jsRound (of_int totalOverlap / of_nat comparisons) else 0))"

text \<open>
  \<open>BrandMentionStats\<close> without \<open>standardDeviation\<close>, a rounded square root that nothing
  below reads.
\<close>

record BrandMentionStats =
  total :: nat
  minMentions :: nat
  maxMentions :: nat
  average :: rat
  variance :: rat
  allContexts :: "BrandMentionContext list"

definition roundTo2 :: "rat \<Rightarrow> rat" where
  \<comment> \<open>\<open>Math.round(x * 100) / 100\<close>\<close>
  "roundTo2 x = of_int (jsRound (x * 100)) / 100"

definition calculateBrandMentionStats :: "ResponseData list \<Rightarrow> BrandMentionStats" where
  "calculateBrandMentionStats responses =
     (let mentions = map brandMentions responses;
          contexts = concat (map brandMentionContexts responses)
      in if length mentions = 0
         then \<lparr>total = 0, minMentions = 0, maxMentions = 0, average = 0, variance = 0, allContexts = []\<rparr>
         else \<lparr>total = sum_list mentions,
               minMentions = Min (set mentions),
               maxMentions = Max (set mentions),
               average = roundTo2 (calculateMean (map of_nat mentions)),
               variance = roundTo2 (calculateVariance (map of_nat mentions)),
               allContexts = contexts\<rparr>)"

record SentimentDistribution =
  positivePct :: int
  neutralPct :: int
  negativePct :: int

definition calculateSentimentDistribution :: "ResponseData list \<Rightarrow> SentimentDistribution" where
  "calculateSentimentDistribution responses =
     (let n = length responses in
      if n = 0 then \<lparr>positivePct = 0, neutralPct = 0, negativePct = 0\<rparr>
      else (let counts = (\<lambda>s. length (filter (\<lambda>r. responseSentiment r = s) responses)) in
            \<lparr>positivePct = jsRound (of_nat (counts Positive) / of_nat n * 100),
             neutralPct = jsRound (of_nat (counts Neutral) / of_nat n * 100),
             negativePct = jsRound (of_nat (counts Negative) / of_nat n * 100)\<rparr>))"

definition calculateConfidenceScore :: "rat \<Rightarrow> BrandMentionStats \<Rightarrow> nat \<Rightarrow> int" where
  "calculateConfidenceScore semanticOverlap brandStats coreMessagesCount =
     (let overlapScore = semanticOverlap;
          maxVariance = 5;
          varianceScore = max 0 (100 - (variance brandStats / maxVariance) * 100);
          coreScore = min 100 (of_nat coreMessagesCount * 20);
          confidence = jsRound (overlapScore * (4 / 10) + varianceScore * (3 / 10) + coreScore * (3 / 10))
      in min 100 (max 0 confidence))"





section \<open>brand-detector\<close>

text \<open>
  The detector reads its database from a data file that is a parameter here: the list of
  brand names, the high-confidence names and the ignored terms of its metadata.
\<close>

record BrandDatabase =
  brands :: "string list"
  high_confidence :: "string list"
  ignored_terms :: "string list"

datatype BrandConfidence = High | Medium | Low

record DetectedBrand =
  name :: string
  normalized :: string
  confidence :: BrandConfidence
  startIndex :: nat
  endIndex :: nat

record Token =
  tokenText :: string
  tokenStart :: nat
  tokenEnd :: nat

definition normalizedMap :: "BrandDatabase \<Rightarrow> string \<Rightarrow> string option" where
  \<comment> \<open>the constructor's loop: lower-cased name to name, a later brand replacing an earlier one\<close>
  "normalizedMap db = fold (\<lambda>brand m. m(toLowerCase brand \<mapsto> brand)) (brands db) Map.empty"

definition getConfidence :: "BrandDatabase \<Rightarrow> string \<Rightarrow> BrandConfidence option" where
  \<comment> \<open>\<open>None\<close> is \<open>null\<close>; the empty string is falsy\<close>
  "getConfidence db txt =
     (case normalizedMap db (toLowerCase txt) of
        None \<Rightarrow> None
      | Some normalizedName \<Rightarrow>
          if normalizedName = [] then None
          else if normalizedName \<in> set (high_confidence db) then Some High
          else if toLowerCase txt \<in> set (ignored_terms db) then Some Low
          else Some Medium)"

fun levels :: "BrandConfidence \<Rightarrow> nat" where
  "levels High = 3"
| "levels Medium = 2"
| "levels Low = 1"

definition meetsMinConfidence :: "BrandConfidence \<Rightarrow> BrandConfidence \<Rightarrow> bool" where
  "meetsMinConfidence c minConf = (levels c \<ge> levels minConf)"

definition isTokenChar :: "char \<Rightarrow> bool" where
  \<comment> \<open>the class \<open>[\\w.-]\<close>\<close>
  "isTokenChar c = (isWordChar c \<or> c = CHR ''.'' \<or> c = CHR ''-'')"

function tokenizeFrom :: "nat \<Rightarrow> string \<Rightarrow> Token list" where
  \<comment> \<open>the \<open>exec\<close> loop of \<open>tokenize\<close>, at offset \<open>pos\<close> of the text\<close>
  "tokenizeFrom pos [] = []"
| "tokenizeFrom pos (c # cs) =
     (if isTokenChar c
      then (let w = c # takeWhile isTokenChar cs in
            \<lparr>tokenText = w, tokenStart = pos, tokenEnd = pos + length w\<rparr>
              # tokenizeFrom (pos + length w) (dropWhile isTokenChar cs))
      else tokenizeFrom (pos + 1) cs)"
  by pat_completeness auto
termination
  by (relation "measure (\<lambda>(pos, s). length s)") (auto simp: length_dropWhile_le less_Suc_eq_le)

definition tokenize :: "string \<Rightarrow> Token list" where
  "tokenize txt = tokenizeFrom 0 txt"

fun joinWith :: "string \<Rightarrow> string list \<Rightarrow> string" where
  \<comment> \<open>\<open>Array.join\<close>\<close>
  "joinWith sep [] = []"
| "joinWith sep [w] = w"
| "joinWith sep (w # ws) = w @ sep @ joinWith sep ws"

definition sliceTo :: "int option \<Rightarrow> 'a list \<Rightarrow> 'a list" where
  \<comment> \<open>\<open>xs.slice(0, n)\<close>; \<open>None\<close> is \<open>Infinity\<close>, a negative \<open>n\<close> counts from the end\<close>
  "sliceTo n xs =
     (case n of
        None \<Rightarrow> xs
      | Some k \<Rightarrow> if k < 0 then take (nat (int (length xs) + k)) xs else take (nat k) xs)"

definition candidateSpans :: "nat \<Rightarrow> (nat \<times> nat) list" where
  \<comment> \<open>the pairs \<open>(i, len)\<close> that the two nested loops visit, in their order\<close>
  "candidateSpans n = concat (map (\<lambda>i. map (\<lambda>len. (i, len)) [1..<min 3 (n - i) + 1]) [0..<n])"

definition detectStep ::
  "BrandDatabase \<Rightarrow> BrandConfidence \<Rightarrow> Token list \<Rightarrow> nat \<times> nat \<Rightarrow> DetectedBrand list \<Rightarrow> DetectedBrand list" where
  \<comment> \<open>the body of the inner loop; the indices \<open>i\<close> and \<open>i + len - 1\<close> are within \<open>words\<close>\<close>
  "detectStep db minConf words pair detected =
     (let i = fst pair; len = snd pair;
          candidate = joinWith '' '' (map tokenText (take len (drop i words)))
      in case normalizedMap db (toLowerCase candidate) of
           None \<Rightarrow> detected
         | Some normalizedName \<Rightarrow>
             if normalizedName = [] then detected
             else (case getConfidence db normalizedName of
                     None \<Rightarrow> detected
                   | Some conf \<Rightarrow>
                       if meetsMinConfidence conf minConf
                       then (let startIdx = tokenStart (words ! i);
                                 endIdx = tokenEnd (words ! (i + len - 1));
                                 alreadyDetected =
                                   list_ex (\<lambda>d. startIndex d = startIdx \<and> endIndex d = endIdx) detected
                             in if \<not> alreadyDetected
                                then detected @ [\<lparr>name = candidate, normalized = normalizedName,
                                                  confidence = conf,
                                                  startIndex = startIdx, endIndex = endIdx\<rparr>]
                                else detected)
                       else detected))"

record DetectOptions =
  minConfidence :: "BrandConfidence option"
  maxResults :: "int option"

definition detectBrands :: "BrandDatabase \<Rightarrow> string \<Rightarrow> DetectOptions \<Rightarrow> DetectedBrand list" where
  \<comment> \<open>the defaults are \<open>'low'\<close> and \<open>Infinity\<close>\<close>
  "detectBrands db txt options =
     (let minConf = (case minConfidence options of None \<Rightarrow> Low | Some c \<Rightarrow> c);
          words = tokenize txt;
          detected = fold (detectStep db minConf words) (candidateSpans (length words)) [];
          ordered = sort_key startIndex detected
      in sliceTo (maxResults options) ordered)"

definition spansOverlap :: "DetectedBrand \<Rightarrow> DetectedBrand \<Rightarrow> bool" where
  "spansOverlap a b = (startIndex a < endIndex b \<and> startIndex b < endIndex a)"

section \<open>dice-roller: literal patterns between word boundaries\<close>

text \<open>
  \<open>analyzeSentiment\<close> and \<open>extractBrandMentions\<close> build the pattern
  \<open>\\b\<close> literal \<open>\\b\<close> with the flags \<open>gi\<close>, from words without pattern syntax or after
  escaping it. Without the flag \<open>u\<close>, two code units match under \<open>i\<close> when their upper-case
  forms agree; in the Latin-1 range that is when \<open>toLowerChar\<close> agrees on them.
\<close>

fun ciPrefix :: "string \<Rightarrow> string \<Rightarrow> bool" where
  "ciPrefix [] s = True"
| "ciPrefix (p # ps) [] = False"
| "ciPrefix (p # ps) (c # cs) = (toLowerChar p = toLowerChar c \<and> ciPrefix ps cs)"

definition wordBoundary :: "char option \<Rightarrow> char option \<Rightarrow> bool" where
  \<comment> \<open>\<open>\\b\<close> between two neighbours, \<open>None\<close> for an end of the input\<close>
  "wordBoundary a b =
     ((case a of None \<Rightarrow> False | Some c \<Rightarrow> isWordChar c)
      \<noteq> (case b of None \<Rightarrow> False | Some c \<Rightarrow> isWordChar c))"

definition matchWordAt :: "string \<Rightarrow> char option \<Rightarrow> string \<Rightarrow> bool" where
  \<comment> \<open>the pattern matches at the head of \<open>s\<close>, whose left neighbour is \<open>prev\<close>;
      the literal is never empty in the source\<close>
  "matchWordAt lit prev s =
     (case s of
        [] \<Rightarrow> False
      | c # cs \<Rightarrow>
          lit \<noteq> [] \<and> ciPrefix lit s \<and> wordBoundary prev (Some c)
          \<and> wordBoundary (Some (last (take (length lit) s)))
                (case drop (length lit) s of [] \<Rightarrow> None | d # ds \<Rightarrow> Some d))"

fun execAll :: "string \<Rightarrow> char option \<Rightarrow> nat \<Rightarrow> string \<Rightarrow> nat list" where
  \<comment> \<open>the indices of all matches of a global pattern, as \<open>match\<close> and the \<open>exec\<close> loop find
      them: after a match the search goes on behind it\<close>
  "execAll lit prev pos [] = []"
| "execAll lit prev pos (c # cs) =
     (if matchWordAt lit prev (c # cs)
      then pos # execAll lit (Some (last (take (length lit) (c # cs)))) (pos + length lit)
                   (drop (length lit - 1) cs)
      else execAll lit (Some c) (pos + 1) cs)"

section \<open>dice-roller: sentiment\<close>

definition countMatches :: "string list \<Rightarrow> string \<Rightarrow> nat" where
  \<comment> \<open>one loop of \<open>analyzeSentiment\<close>: the summed lengths of the match arrays\<close>
  "countMatches indicators lower = sum_list (map (\<lambda>word. length (execAll word None 0 lower)) indicators)"

definition positiveScore :: "string \<Rightarrow> nat" where
  "positiveScore txt = countMatches POSITIVE_INDICATORS (toLowerCase txt)"

definition negativeScore :: "string \<Rightarrow> nat" where
  "negativeScore txt = countMatches NEGATIVE_INDICATORS (toLowerCase txt)"

definition analyzeSentiment :: "string \<Rightarrow> Sentiment" where
  "analyzeSentiment txt =
     (if (of_nat (positiveScore txt) :: rat) > of_nat (negativeScore txt) * (15 / 10) then Positive
      else if (of_nat (negativeScore txt) :: rat) > of_nat (positiveScore txt) * (15 / 10) then Negative
      else Neutral)"

definition analyzeSnippetSentiment :: "string \<Rightarrow> Sentiment" where
  "analyzeSnippetSentiment snip =
     (let lower = toLowerCase snip;
          pos = length (filter (\<lambda>word. includesStr lower word) POSITIVE_INDICATORS);
          neg = length (filter (\<lambda>word. includesStr lower word) NEGATIVE_INDICATORS)
      in if pos > neg then Positive else if neg > pos then Negative else Neutral)"

section \<open>dice-roller: brand mentions\<close>

text \<open>What the source can throw: its own three errors, a rejected query, and a type error of the runtime.\<close>

datatype Exception =
    ApiKeyRequired
  | IterationsOutOfRange
  | AllIterationsFailed
  | QueryRejected string
  | TypeError

function splitRuns :: "(char \<Rightarrow> bool) \<Rightarrow> string \<Rightarrow> string list" where
  \<comment> \<open>\<open>s.split(/[...]+/)\<close> for a character class \<open>P\<close>: the pieces between the maximal
      runs of separators, empty pieces at either end included\<close>
  "splitRuns P [] = [[]]"
| "splitRuns P (c # cs) =
     (if P c then [] # splitRuns P (dropWhile P cs)
      else (case splitRuns P cs of w # ws \<Rightarrow> (c # w) # ws | [] \<Rightarrow> [[c]]))"
  by pat_completeness auto
termination
  by (relation "measure (\<lambda>(P, s). length s)") (auto simp: length_dropWhile_le less_Suc_eq_le)

datatype PropertyValue = OwnProperty "string list" | InheritedProperty | Absent

definition objectPrototypeProperties :: "string list" where
  "objectPrototypeProperties = [''constructor'', ''hasOwnProperty'', ''isPrototypeOf'',
     ''propertyIsEnumerable'', ''toLocaleString'', ''toString'', ''valueOf'', ''__proto__'',
     ''__defineGetter__'', ''__defineSetter__'', ''__lookupGetter__'', ''__lookupSetter__'']"

definition abbreviationMap :: "string \<Rightarrow> PropertyValue" where
  \<comment> \<open>\<open>abbreviationMap[lowerWord]\<close>. The table is an object literal, so a key that it does not
      hold is looked up in \<open>Object.prototype\<close>, whose members are functions or objects:
      truthy, and not iterable\<close>
  "abbreviationMap lowerWord =
     (case map_of [
        (''vw'', [''volkswagen'', ''volkswagen group'', ''vw group'']),
        (''volkswagen'', [''vw'', ''vw group'', ''volkswagen group'']),
        (''bmw'', [''bayerische motoren werke'']),
        (''gm'', [''general motors'']),
        (''hp'', [''hewlett packard'', ''hewlett-packard'']),
        (''ibm'', [''international business machines'']),
        (''ge'', [''general electric''])] lowerWord of
        Some expansions \<Rightarrow> OwnProperty expansions
      | None \<Rightarrow> if lowerWord \<in> set objectPrototypeProperties then InheritedProperty else Absent)"

fun expandAbbreviations :: "string list \<Rightarrow> string list \<Rightarrow> Exception + string list" where
  \<comment> \<open>the loop over \<open>words\<close> that adds the expansions; \<open>for ... of\<close> over a value that is
      not iterable throws\<close>
  "expandAbbreviations [] variations = Inr variations"
| "expandAbbreviations (word # ws) variations =
     (case abbreviationMap (toLowerCase word) of
        OwnProperty expansions \<Rightarrow> expandAbbreviations ws (fold setAdd expansions variations)
      | InheritedProperty \<Rightarrow> Inl TypeError
      | Absent \<Rightarrow> expandAbbreviations ws variations)"

definition suffixPatterns :: "string list" where
  \<comment> \<open>the literals of the patterns \<open>/ group$/i\<close> and so on\<close>
  "suffixPatterns = ['' group'', '' corp'', '' inc'', '' ltd'', '' llc'', '' sa'', '' ag'', '' gmbh'']"

definition stripSuffix :: "string \<Rightarrow> string \<Rightarrow> string list \<Rightarrow> string list" where
  "stripSuffix normalizedName pat variations =
     (if ciPrefix (rev pat) (rev normalizedName)
      then (let withoutSuffix = trim (take (length normalizedName - length pat) normalizedName) in
            if length withoutSuffix \<ge> 2 then setAdd withoutSuffix variations else variations)
      else variations)"

definition isNameSeparator :: "char \<Rightarrow> bool" where
  \<comment> \<open>the class \<open>[\\s\\-_&]\<close>\<close>
  "isNameSeparator c = (isSpace c \<or> c = CHR ''-'' \<or> c = CHR ''_'' \<or> c = CHR ''&'')"

definition generateBrandVariations :: "string \<Rightarrow> Exception + string list" where
  "generateBrandVariations brandName =
     (let normalizedName = trim brandName in
      if normalizedName = [] then Inr []
      else (let words = filter (\<lambda>w. length w > 0) (splitRuns isNameSeparator normalizedName);
                variations = fold setAdd (filter (\<lambda>w. length w \<ge> 2) words) [normalizedName]
            in case expandAbbreviations words variations of
                 Inl e \<Rightarrow> Inl e
               | Inr variations' \<Rightarrow>
                   Inr (filter (\<lambda>v. length v \<ge> 2)
                         (fold (stripSuffix normalizedName) suffixPatterns variations'))))"

definition makeContext :: "string \<Rightarrow> nat \<Rightarrow> nat \<Rightarrow> BrandMentionContext" where
  \<comment> \<open>the snippet around a match at \<open>pos\<close>, with \<open>snippetRadius = 80\<close>\<close>
  "makeContext response matchLength pos =
     (let snippetRadius = 80;
          start = (if pos < snippetRadius then 0 else pos - snippetRadius);
          end' = min (length response) (pos + matchLength + snippetRadius);
          snip = trim (take (end' - start) (drop start response));
          snip1 = (if start > 0 then ''...'' @ snip else snip);
          snip2 = (if end' < length response then snip1 @ ''...'' else snip1)
      in \<lparr>position = pos, snippet = snip2, sentiment = analyzeSnippetSentiment snip2\<rparr>)"

definition recordMatch ::
  "string \<Rightarrow> nat \<Rightarrow> nat \<Rightarrow> nat list \<times> BrandMentionContext list \<Rightarrow> nat list \<times> BrandMentionContext list" where
  \<comment> \<open>the body of the \<open>while\<close> loop, on the pair of \<open>foundPositions\<close> and \<open>contexts\<close>\<close>
  "recordMatch response matchLength pos state =
     (let foundPositions = fst state; contexts = snd state;
          isDuplicate = list_ex (\<lambda>existingPos. \<bar>int existingPos - int pos\<bar> < 10) foundPositions
      in if isDuplicate then state
         else (setAdd pos foundPositions, contexts @ [makeContext response matchLength pos]))"

definition scanVariation ::
  "string \<Rightarrow> string \<Rightarrow> nat list \<times> BrandMentionContext list \<Rightarrow> nat list \<times> BrandMentionContext list" where
  \<comment> \<open>the \<open>exec\<close> loop for one variation; a match is as long as the variation\<close>
  "scanVariation response variation state =
     fold (recordMatch response (length variation)) (execAll variation None 0 response) state"

definition extractBrandMentions :: "string \<Rightarrow> string \<Rightarrow> Exception + BrandMentionContext list" where
  "extractBrandMentions response brandName =
     (if brandName = [] \<or> response = [] then Inr []
      else (case generateBrandVariations brandName of
              Inl e \<Rightarrow> Inl e
            | Inr variations \<Rightarrow>
                Inr (sort_key position (snd (fold (scanVariation response) variations ([], []))))))"

section \<open>dice-roller: key points\<close>

definition isSentenceEnd :: "char \<Rightarrow> bool" where
  \<comment> \<open>the class \<open>[.!?]\<close>\<close>
  "isSentenceEnd c = (c = CHR ''.'' \<or> c = CHR ''!'' \<or> c = CHR ''?'')"

fun hasPercentage :: "string \<Rightarrow> bool" where
  \<comment> \<open>\<open>/\\d+%/.test(s)\<close>: somewhere, digits and then a percent sign\<close>
  "hasPercentage [] = False"
| "hasPercentage (c # cs) =
     ((isDigit c \<and> (case dropWhile isDigit cs of [] \<Rightarrow> False | d # ds \<Rightarrow> d = CHR ''%''))
      \<or> hasPercentage cs)"

fun hasMoney :: "string \<Rightarrow> bool" where
  \<comment> \<open>\<open>/\\$[\\d,]+/.test(s)\<close>: somewhere, a dollar sign and then a digit or a comma\<close>
  "hasMoney [] = False"
| "hasMoney (c # cs) =
     ((c = CHR ''$'' \<and> (case cs of [] \<Rightarrow> False | d # ds \<Rightarrow> isDigit d \<or> d = CHR '',''))
      \<or> hasMoney cs)"

definition importanceWeights :: "(string \<times> int) list" where
  "importanceWeights = [(''important'', 2), (''key'', 2), (''critical'', 2), (''essential'', 2),
     (''recommend'', 3), (''should'', 1), (''must'', 2), (''benefit'', 1), (''advantage'', 1),
     (''best'', 2), (''leading'', 2), (''top'', 1)]"

definition scoreSentence :: "string \<Rightarrow> int" where
  "scoreSentence sentence =
     (let lower = toLowerCase sentence in
      sum_list (map (\<lambda>(phrase, weight). if includesStr lower phrase then weight else 0) importanceWeights)
      + (if hasPercentage sentence then 2 else 0)
      + (if hasMoney sentence then 2 else 0))"

definition candidateSentences :: "string \<Rightarrow> string list" where
  "candidateSentences response =
     filter (\<lambda>s. length s > 20 \<and> length s < 300) (map trim (splitRuns isSentenceEnd response))"

definition extractKeyPoints :: "string \<Rightarrow> string list" where
  \<comment> \<open>\<open>sort\<close> is stable; descending by score is ascending by the negated score\<close>
  "extractKeyPoints response =
     (let scored = map (\<lambda>sentence. (sentence, scoreSentence sentence)) (candidateSentences response) in
      map fst (take 10 (sort_key (\<lambda>item. - snd item) scored)))"

section \<open>dice-roller: the text normalizer\<close>

text \<open>
  \<open>cleanResponse\<close> is a chain of global replacements. A pattern is modelled by a matcher:
  given the left neighbour of a position and the input from that position on, it returns
  the replacement and the number of code units matched, or \<open>None\<close>. \<open>gsub\<close> is the global
  replacement: the leftmost match is replaced and the search goes on behind it, on the
  original input. None of the patterns matches the empty string.
\<close>

type_synonym matcher = "char option \<Rightarrow> string \<Rightarrow> (string \<times> nat) option"

fun gsub :: "matcher \<Rightarrow> char option \<Rightarrow> string \<Rightarrow> string" where
  "gsub m prev [] = []"
| "gsub m prev (c # cs) =
     (case m prev (c # cs) of
        None \<Rightarrow> c # gsub m (Some c) cs
      | Some (replacement, n) \<Rightarrow>
          if n = 0 then c # gsub m (Some c) cs
          else replacement @ gsub m (Some (last (take n (c # cs)))) (drop (n - 1) cs))"

definition atLineStart :: "char option \<Rightarrow> bool" where
  \<comment> \<open>\<open>^\<close> under the flag \<open>m\<close>\<close>
  "atLineStart prev = (case prev of None \<Rightarrow> True | Some p \<Rightarrow> isLineTerminator p)"

definition headerPattern :: matcher where
  \<comment> \<open>\<open>/^#{1,6}\\s*/gm\<close>, replaced by the empty string\<close>
  "headerPattern prev s =
     (if atLineStart prev
      then (let k = min 6 (length (takeWhile (\<lambda>c. c = CHR ''#'') s)) in
            if k = 0 then None
            else Some ([], k + length (takeWhile isSpace (drop k s))))
      else None)"

fun lazyGroup :: "string \<Rightarrow> string \<Rightarrow> string option" where
  \<comment> \<open>\<open>(.+?)\<close> followed by the delimiter \<open>d\<close>: the shortest run of one or more code
      units, none a line terminator, behind which \<open>d\<close> stands\<close>
  "lazyGroup d [] = None"
| "lazyGroup d (c # cs) =
     (if isLineTerminator c then None
      else if isPrefixOf d cs then Some [c]
      else map_option (\<lambda>g. c # g) (lazyGroup d cs))"

definition delimitedPattern :: "string \<Rightarrow> matcher" where
  \<comment> \<open>\<open>/\\*\\*(.+?)\\*\\*/g\<close> and its three siblings, replaced by \<open>$1\<close>\<close>
  "delimitedPattern d prev s =
     (if isPrefixOf d s
      then (case lazyGroup d (drop (length d) s) of
              None \<Rightarrow> None
            | Some g \<Rightarrow> Some (g, length d + length g + length d))
      else None)"

definition bulletPattern :: matcher where
  \<comment> \<open>\<open>/^\\s*[-*]\\s*/gm\<close>, replaced by the empty string\<close>
  "bulletPattern prev s =
     (if atLineStart prev
      then (case dropWhile isSpace s of
              [] \<Rightarrow> None
            | c # cs \<Rightarrow>
                if c = CHR ''-'' \<or> c = CHR ''*''
                then Some ([], length (takeWhile isSpace s) + 1 + length (takeWhile isSpace cs))
                else None)
      else None)"

definition numberedPattern :: matcher where
  \<comment> \<open>\<open>/^\\s*\\d+\\.\\s*/gm\<close>, replaced by the empty string\<close>
  "numberedPattern prev s =
     (if atLineStart prev
      then (let rest = dropWhile isSpace s; digits = takeWhile isDigit rest in
            if digits = [] then None
            else (case dropWhile isDigit rest of
                    [] \<Rightarrow> None
                  | c # cs \<Rightarrow>
                      if c = CHR ''.''
                      then Some ([], length (takeWhile isSpace s) + length digits + 1
                                       + length (takeWhile isSpace cs))
                      else None))
      else None)"

fun lazyUntil :: "string \<Rightarrow> string \<Rightarrow> nat option" where
  \<comment> \<open>\<open>[\\s\\S]*?\<close> followed by \<open>d\<close>: the least number of code units behind which \<open>d\<close> stands\<close>
  "lazyUntil d [] = (if d = [] then Some 0 else None)"
| "lazyUntil d (c # cs) =
     (if isPrefixOf d (c # cs) then Some 0 else map_option Suc (lazyUntil d cs))"

definition backtick :: char where
  "backtick = CHR 0x60"

definition fencePattern :: matcher where
  \<comment> \<open>three backticks, \<open>[\\s\\S]*?\<close>, three backticks; replaced by the empty string\<close>
  "fencePattern prev s =
     (let fence = [backtick, backtick, backtick] in
      if isPrefixOf fence s
      then (case lazyUntil fence (drop 3 s) of
              None \<Rightarrow> None
            | Some k \<Rightarrow> Some ([], 3 + k + 3))
      else None)"

definition inlineCodePattern :: matcher where
  \<comment> \<open>a backtick, one or more code units that are not backticks, a backtick; replaced by \<open>$1\<close>\<close>
  "inlineCodePattern prev s =
     (case s of
        [] \<Rightarrow> None
      | c # cs \<Rightarrow>
          if c = backtick
          then (let inner = takeWhile (\<lambda>x. x \<noteq> backtick) cs in
                if inner \<noteq> [] \<and> dropWhile (\<lambda>x. x \<noteq> backtick) cs \<noteq> []
                then Some (inner, length inner + 2)
                else None)
          else None)"

definition runPattern :: "char \<Rightarrow> matcher" where
  \<comment> \<open>\<open>/\\n{2,}/g\<close> and \<open>/ {2,}/g\<close>, replaced by one such character\<close>
  "runPattern ch prev s =
     (let run = takeWhile (\<lambda>c. c = ch) s in
      if length run \<ge> 2 then Some ([ch], length run) else None)"

definition newline :: char where
  "newline = CHR 0x0A"

definition cleanResponse :: "string \<Rightarrow> string" where
  "cleanResponse txt =
     (let cleaned = txt;
          cleaned = gsub headerPattern None cleaned;
          cleaned = gsub (delimitedPattern ''**'') None cleaned;
          cleaned = gsub (delimitedPattern ''*'') None cleaned;
          cleaned = gsub (delimitedPattern ''__'') None cleaned;
          cleaned = gsub (delimitedPattern ''_'') None cleaned;
          cleaned = gsub bulletPattern None cleaned;
          cleaned = gsub numberedPattern None cleaned;
          cleaned = gsub fencePattern None cleaned;
          cleaned = gsub inlineCodePattern None cleaned;
          cleaned = gsub (runPattern newline) None cleaned;
          cleaned = gsub (runPattern CHR '' '') None cleaned
      in trim cleaned)"

section \<open>dice-roller: the orchestrator\<close>

text \<open>
  \<open>analyzeStability\<close> awaits one query per iteration. What the outside world does is a
  parameter: the outcome of the query of each iteration (a result or a rejection), the
  clock readings. The callbacks \<open>onProgress\<close> and \<open>onError\<close> are observers: the model
  records whether each is supplied, and every call in a trace of events, together with
  the console output and the delays. The records carry the fields that the analysis
  computes; the advisory texts of \<open>recommendations\<close> and the text of an error are left out.
\<close>

datatype Model = Gemini | OpenAI | Grok

record QueryResult =
  response :: string
  queryLatencyMs :: nat
  queryCitations :: "SearchCitation list option"

record StabilityOptions =
  prompt :: string
  iterations :: "int option"
  model :: "Model option"
  apiKey :: string
  temperature :: "rat option"
  maxTokens :: "nat option"
  brandName :: "string option"
  iterationDelayMs :: "nat option"
  optSearchMode :: "SearchMode option"
  onProgress :: bool
  onError :: bool

record Environment =
  queryOutcome :: "nat \<Rightarrow> Exception + QueryResult"
  timestampAt :: "nat \<Rightarrow> string"
  elapsedMs :: nat

record IterationError =
  errorIteration :: nat
  errorCause :: Exception

datatype Event =
    ProgressCalled nat int
  | ErrorCalled IterationError
  | ConsoleError nat Exception
  | Delayed nat

record Metadata =
  metaPrompt :: string
  metaModel :: Model
  metaIterations :: nat
  executionTimeMs :: nat
  metaBrandName :: "string option"
  metaSearchMode :: SearchMode

record StabilityResult =
  consistencyScore :: int
  semanticOverlap :: int
  responses :: "ResponseData list"
  analysis :: KeyMessages
  brandMentionStats :: BrandMentionStats
  sentimentDistribution :: SentimentDistribution
  metadata :: Metadata

definition estimateTokenCount :: "string \<Rightarrow> nat" where
  \<comment> \<open>\<open>Math.ceil(text.length / 4)\<close>, and 0 for the empty text\<close>
  "estimateTokenCount txt = (if txt = [] then 0 else (length txt + 3) div 4)"

definition iterationsOf :: "StabilityOptions \<Rightarrow> int" where
  "iterationsOf opts = (case iterations opts of None \<Rightarrow> 5 | Some n \<Rightarrow> n)"

definition searchModeOf :: "StabilityOptions \<Rightarrow> SearchMode" where
  "searchModeOf opts = (case optSearchMode opts of None \<Rightarrow> Memory | Some m \<Rightarrow> m)"

definition modelOf :: "StabilityOptions \<Rightarrow> Model" where
  "modelOf opts = (case model opts of None \<Rightarrow> Gemini | Some m \<Rightarrow> m)"

definition delayOf :: "StabilityOptions \<Rightarrow> nat" where
  "delayOf opts = (case iterationDelayMs opts of None \<Rightarrow> 1000 | Some d \<Rightarrow> d)"

definition mentionsFor :: "StabilityOptions \<Rightarrow> string \<Rightarrow> Exception + BrandMentionContext list" where
  \<comment> \<open>\<open>brandName ? extractBrandMentions(cleanedResponse, brandName) : []\<close>\<close>
  "mentionsFor opts cleanedResponse =
     (case brandName opts of
        None \<Rightarrow> Inr []
      | Some b \<Rightarrow> if b = [] then Inr [] else extractBrandMentions cleanedResponse b)"

definition processResult ::
  "StabilityOptions \<Rightarrow> Environment \<Rightarrow> nat \<Rightarrow> QueryResult \<Rightarrow> Exception + ResponseData" where
  \<comment> \<open>the statements of the \<open>try\<close> block between the query and \<open>responses.push\<close>\<close>
  "processResult opts env i result =
     (let cleanedResponse = cleanResponse (response result);
          points = extractKeyPoints cleanedResponse;
          mood = analyzeSentiment cleanedResponse
      in case mentionsFor opts cleanedResponse of
           Inl e \<Rightarrow> Inl e
         | Inr contexts \<Rightarrow>
             Inr \<lparr>iteration = i,
                  content = response result,
                  contentLength = length (response result),
                  estimatedTokens = estimateTokenCount (response result),
                  brandMentions = length contexts,
                  brandMentionContexts = contexts,
                  keyPoints = points,
                  responseSentiment = mood,
                  latencyMs = queryLatencyMs result,
                  timestamp = timestampAt env i,
                  searchMode = searchModeOf opts,
                  citations = queryCitations result\<rparr>)"

definition runIteration :: "StabilityOptions \<Rightarrow> Environment \<Rightarrow> nat \<Rightarrow> Exception + ResponseData" where
  "runIteration opts env i =
     (case queryOutcome env i of
        Inl e \<Rightarrow> Inl e
      | Inr result \<Rightarrow> processResult opts env i result)"

definition iterationStep ::
  "StabilityOptions \<Rightarrow> Environment \<Rightarrow> nat \<Rightarrow> ResponseData list \<times> Event list
     \<Rightarrow> ResponseData list \<times> Event list" where
  \<comment> \<open>one turn of the loop, on the pair of \<open>responses\<close> and the trace\<close>
  "iterationStep opts env i state =
     (case runIteration opts env i of
        Inr r \<Rightarrow>
          (fst state @ [r],
           snd state
             @ (if onProgress opts then [ProgressCalled i (iterationsOf opts)] else [])
             @ (if int i < iterationsOf opts then [Delayed (delayOf opts)] else []))
      | Inl e \<Rightarrow>
          (fst state,
           snd state
             @ [if onError opts then ErrorCalled \<lparr>errorIteration = i, errorCause = e\<rparr>
                else ConsoleError i e]))"

definition iterationRange :: "StabilityOptions \<Rightarrow> nat list" where
  \<comment> \<open>\<open>for (let i = 1; i <= iterations; i++)\<close>\<close>
  "iterationRange opts = [1..<nat (iterationsOf opts) + 1]"

definition assemble :: "StabilityOptions \<Rightarrow> Environment \<Rightarrow> ResponseData list \<Rightarrow> StabilityResult" where
  \<comment> \<open>the analysis after the loop and the returned object\<close>
  "assemble opts env rs =
     (let overlap = calculateAverageOverlap rs;
          classification = classifyKeyMessages rs;
          brandStats = calculateBrandMentionStats rs;
          sentimentDist = calculateSentimentDistribution rs;
          confidenceScore = calculateConfidenceScore (of_int overlap) brandStats
                              (length (coreStableMessages classification))
      in \<lparr>consistencyScore = confidenceScore,
          semanticOverlap = overlap,
          responses = rs,
          analysis = classification,
          brandMentionStats = brandStats,
          sentimentDistribution = sentimentDist,
          metadata = \<lparr>metaPrompt = prompt opts,
                       metaModel = modelOf opts,
                       metaIterations = length rs,
                       executionTimeMs = elapsedMs env,
                       metaBrandName = brandName opts,
                       metaSearchMode = searchModeOf opts\<rparr>\<rparr>)"

definition analyzeStability ::
  "StabilityOptions \<Rightarrow> Environment \<Rightarrow> Event list \<times> (Exception + StabilityResult)" where
  "analyzeStability opts env =
     (if apiKey opts = [] then ([], Inl ApiKeyRequired)
      else if iterationsOf opts < 1 \<or> iterationsOf opts > 10 then ([], Inl IterationsOutOfRange)
      else (let state = fold (iterationStep opts env) (iterationRange opts) ([], []) in
            if length (fst state) = 0 then (snd state, Inl AllIterationsFailed)
            else (snd state, Inr (assemble opts env (fst state)))))"

section \<open>Auxiliary notions for the properties\<close>

text \<open>The bucket of a cluster, as the loop of \<open>classifyKeyMessages\<close> decides it.\<close>

definition isCore :: "nat \<Rightarrow> string \<times> nat list \<Rightarrow> bool" where
  "isCore T e = frequencyAtLeast (length (snd e)) T CORE_MESSAGE_THRESHOLD"

definition isVariable :: "nat \<Rightarrow> string \<times> nat list \<Rightarrow> bool" where
  "isVariable T e = (\<not> isCore T e \<and> frequencyAtLeast (length (snd e)) T VARIABLE_MESSAGE_THRESHOLD)"

definition isOutlier :: "nat \<Rightarrow> string \<times> nat list \<Rightarrow> bool" where
  "isOutlier T e = (\<not> isCore T e \<and> \<not> frequencyAtLeast (length (snd e)) T VARIABLE_MESSAGE_THRESHOLD)"

definition variableEntry :: "nat \<Rightarrow> string \<times> nat list \<Rightarrow> VariableMessage" where
  "variableEntry T e = \<lparr>message = fst e,
      frequency = jsRound (of_nat (length (snd e)) / of_nat T * 100),
      appearancePattern = sort (snd e)\<rparr>"

text \<open>Every iteration set of a cluster map is a proper \<open>Set\<close>: without repetition, and not empty.\<close>

definition setsOk :: "clusters \<Rightarrow> bool" where
  "setsOk cl = list_all (\<lambda>e. distinct (snd e) \<and> snd e \<noteq> []) cl"

definition spanOf :: "DetectedBrand \<Rightarrow> nat \<times> nat" where
  "spanOf d = (startIndex d, endIndex d)"

text \<open>Positions that pairwise lie at least ten code units apart.\<close>

definition spaced :: "nat list \<Rightarrow> bool" where
  "spaced ps = (\<forall>a \<in> set ps. \<forall>b \<in> set ps. a \<noteq> b \<longrightarrow> 10 \<le> \<bar>int a - int b\<bar>)"

text \<open>What the loops of \<open>extractBrandMentions\<close> keep true of \<open>foundPositions\<close> and \<open>contexts\<close>.\<close>

definition mentionsInvariant :: "nat list \<times> BrandMentionContext list \<Rightarrow> bool" where
  "mentionsInvariant state =
     (map position (snd state) = fst state \<and> distinct (fst state) \<and> spaced (fst state))"

text \<open>The words of a brand name, as \<open>generateBrandVariations\<close> splits them.\<close>

definition brandWords :: "string \<Rightarrow> string list" where
  "brandWords brand = filter (\<lambda>w. length w > 0) (splitRuns isNameSeparator (trim brand))"

text \<open>Notions for runs of \<open>analyzeStability\<close>.\<close>

definition validConfiguration :: "StabilityOptions \<Rightarrow> bool" where
  "validConfiguration opts = (apiKey opts \<noteq> [] \<and> 1 \<le> iterationsOf opts \<and> iterationsOf opts \<le> 10)"

definition iterationFails :: "StabilityOptions \<Rightarrow> Environment \<Rightarrow> nat \<Rightarrow> bool" where
  "iterationFails opts env i = isl (runIteration opts env i)"

definition queryFails :: "Environment \<Rightarrow> nat \<Rightarrow> bool" where
  "queryFails env i = isl (queryOutcome env i)"

definition succeeded :: "StabilityOptions \<Rightarrow> Environment \<Rightarrow> nat list" where
  "succeeded opts env = filter (\<lambda>i. \<not> iterationFails opts env i) (iterationRange opts)"

definition failed :: "StabilityOptions \<Rightarrow> Environment \<Rightarrow> nat list" where
  "failed opts env = filter (iterationFails opts env) (iterationRange opts)"

definition isErrorEvent :: "Event \<Rightarrow> bool" where
  "isErrorEvent ev = (case ev of ErrorCalled e \<Rightarrow> True | ConsoleError i e \<Rightarrow> True | _ \<Rightarrow> False)"

definition errorEventFor :: "StabilityOptions \<Rightarrow> Environment \<Rightarrow> nat \<Rightarrow> Event" where
  "errorEventFor opts env i =
     (if onError opts
      then ErrorCalled \<lparr>errorIteration = i, errorCause = projl (runIteration opts env i)\<rparr>
      else ConsoleError i (projl (runIteration opts env i)))"

definition brandIsSafe :: "StabilityOptions \<Rightarrow> bool" where
  "brandIsSafe opts =
     (case brandName opts of
        None \<Rightarrow> True
      | Some b \<Rightarrow> list_all (\<lambda>w. toLowerCase w \<notin> set objectPrototypeProperties) (brandWords b))"

text \<open>Two neighbours of a text stand in the relation \<open>R\<close>.\<close>

fun hasPair :: "(char \<Rightarrow> char \<Rightarrow> bool) \<Rightarrow> string \<Rightarrow> bool" where
  "hasPair R (x # y # zs) = (R x y \<or> hasPair R (y # zs))"
| "hasPair R s = False"


text \<open>
  Text without markdown markers: none of the characters that a pattern of \<open>cleanResponse\<close>
  other than the two whitespace patterns needs, and no digit right before a full stop.
\<close>

definition markerChars :: "char list" where
  "markerChars = [CHR ''#'', CHR ''*'', CHR ''_'', CHR ''-'', backtick]"

definition markerFree :: "string \<Rightarrow> bool" where
  "markerFree s = (list_all (\<lambda>c. c \<notin> set markerChars) s
                   \<and> \<not> hasPair (\<lambda>x y. isDigit x \<and> y = CHR ''.'') s)"


text \<open>
  A whole-word occurrence of a literal at index \<open>i\<close> of a text, without regard to case:
  the text holds the literal there, and a word boundary stands on either side.
\<close>

definition lastOption :: "string \<Rightarrow> char option" where
  "lastOption s = (if s = [] then None else Some (last s))"

definition headOption :: "string \<Rightarrow> char option" where
  "headOption s = (case s of [] \<Rightarrow> None | c # cs \<Rightarrow> Some c)"

definition wholeWordAt :: "string \<Rightarrow> string \<Rightarrow> nat \<Rightarrow> bool" where
  "wholeWordAt lit s i =
     (let before = take i s; mid = take (length lit) (drop i s); after = drop (i + length lit) s in
      lit \<noteq> [] \<and> length mid = length lit \<and> toLowerCase mid = toLowerCase lit
      \<and> wordBoundary (lastOption before) (headOption mid)
      \<and> wordBoundary (lastOption mid) (headOption after))"

text \<open>
  A literal overlaps itself at \<open>k\<close> if a second occurrence can begin \<open>k\<close> characters
  into a first one. None of the sentiment indicators does.
\<close>

definition selfOverlapAt :: "string \<Rightarrow> nat \<Rightarrow> bool" where
  "selfOverlapAt lit k =
     (toLowerCase (take (length lit - k) lit) = toLowerCase (drop k lit)
      \<and> wordBoundary (Some (lit ! (k - 1))) (Some (lit ! k)))"

definition noSelfOverlap :: "string \<Rightarrow> bool" where
  "noSelfOverlap lit = list_all (\<lambda>k. \<not> selfOverlapAt lit k) [1..<length lit]"

section \<open>Example inputs\<close>

definition exampleResponse :: "nat \<Rightarrow> string list \<Rightarrow> ResponseData" where
  "exampleResponse i points =
     \<lparr>iteration = i, content = [], contentLength = 0, estimatedTokens = 0, brandMentions = 0,
      brandMentionContexts = [], keyPoints = points, responseSentiment = Neutral, latencyMs = 0,
      timestamp = [], searchMode = Memory, citations = None\<rparr>"

definition exampleRun :: "ResponseData list" where
  "exampleRun =
     [exampleResponse 1 [''Asana tracks tasks''],
      exampleResponse 2 [''Asana tracks tasks'', ''Notion stores notes''],
      exampleResponse 3 [''Asana tracks tasks''],
      exampleResponse 4 [''Asana tracks tasks'', ''Notion stores notes''],
      exampleResponse 5 [''Trello boards'']]"

definition exampleDatabase :: BrandDatabase where
  "exampleDatabase =
     \<lparr>brands = [''Google'', ''Google Cloud''], high_confidence = [''Google''], ignored_terms = []\<rparr>"

definition defaultOptions :: DetectOptions where
  "defaultOptions = \<lparr>minConfidence = None, maxResults = None\<rparr>"

definition constructorOptions :: StabilityOptions where
  "constructorOptions =
     \<lparr>prompt = ''Which firms build software?'', iterations = Some 2, model = None,
      apiKey = ''key'', temperature = None, maxTokens = None,
      brandName = Some ''Constructor Group'', iterationDelayMs = None, optSearchMode = None,
      onProgress = False, onError = True\<rparr>"

definition answeringEnvironment :: Environment where
  "answeringEnvironment =
     \<lparr>queryOutcome = (\<lambda>i. Inr \<lparr>response = ''Constructor Group is hiring'', queryLatencyMs = 10,
                                  queryCitations = None\<rparr>),
      timestampAt = (\<lambda>i. []), elapsedMs = 0\<rparr>"

definition partialOptions :: StabilityOptions where
  "partialOptions =
     \<lparr>prompt = ''Which firms build software?'', iterations = Some 5, model = None,
      apiKey = ''key'', temperature = None, maxTokens = None,
      brandName = None, iterationDelayMs = None, optSearchMode = None,
      onProgress = False, onError = True\<rparr>"

definition partialEnvironment :: Environment where
  "partialEnvironment =
     \<lparr>queryOutcome = (\<lambda>i. if i = 2 \<or> i = 4 then Inl (QueryRejected ''timeout'')
                           else Inr \<lparr>response = ''Fine'', queryLatencyMs = 10, queryCitations = None\<rparr>),
      timestampAt = (\<lambda>i. []), elapsedMs = 0\<rparr>"


definition failingEnvironment :: Environment where
  "failingEnvironment =
     \<lparr>queryOutcome = (\<lambda>i. Inl (QueryRejected ''timeout'')),
      timestampAt = (\<lambda>i. []), elapsedMs = 0\<rparr>"

section \<open>A code equation for evaluation\<close>

text \<open>
  Every upper-case letter of the range has bit 5 clear and bit 6 set, so all other
  characters are their own lower-case form without a look at the table.
\<close>

lemma upper_bits:
  "Char b0 b1 b2 b3 b4 b5 b6 b7 \<in> set (asciiUpper @ latinUpper) \<Longrightarrow> \<not> b5 \<and> b6"
  by (auto simp: asciiUpper_def latinUpper_def)

lemma toLowerChar_fast [code]:
  "toLowerChar (Char b0 b1 b2 b3 b4 b5 b6 b7) =
     (if b5 \<or> \<not> b6 then Char b0 b1 b2 b3 b4 b5 b6 b7
      else (case map_of (zip (asciiUpper @ latinUpper) (asciiLower @ latinLower))
                  (Char b0 b1 b2 b3 b4 b5 b6 b7) of
              Some l \<Rightarrow> l | None \<Rightarrow> Char b0 b1 b2 b3 b4 b5 b6 b7))"
proof (cases "b5 \<or> \<not> b6")
  case True
  then have "Char b0 b1 b2 b3 b4 b5 b6 b7 \<notin> set (asciiUpper @ latinUpper)"
    using upper_bits by blast
  then have "map_of (zip (asciiUpper @ latinUpper) (asciiLower @ latinLower))
               (Char b0 b1 b2 b3 b4 b5 b6 b7) = None"
    by (simp add: map_of_zip_is_None asciiUpper_def latinUpper_def asciiLower_def latinLower_def)
  with True show ?thesis by (simp add: toLowerChar_def)
next
  case False
  then show ?thesis by (auto simp: toLowerChar_def split: option.splits)
qed

section \<open>Clustering and classification\<close>

lemma mapSet_keys:
  "map fst (mapSet k v m) = (if k \<in> set (map fst m) then map fst m else map fst m @ [k])"
  by (induction m) force+

lemma mapSet_distinct: "distinct (map fst m) \<Longrightarrow> distinct (map fst (mapSet k v m))"
  by (simp add: mapSet_keys)

lemma addToFirstSimilar_keys:
  "addToFirstSimilar n it cl = Some cl' \<Longrightarrow> map fst cl' = map fst cl"
  by (induction cl arbitrary: cl') (auto split: if_splits)

lemma addKeyPoint_distinct:
  "distinct (map fst cl) \<Longrightarrow> distinct (map fst (addKeyPoint it kp cl))"
  by (auto simp: addKeyPoint_def Let_def mapSet_distinct addToFirstSimilar_keys split: option.splits)

lemma fold_addKeyPoint_distinct:
  "distinct (map fst cl) \<Longrightarrow> distinct (map fst (fold (addKeyPoint it) kps cl))"
  by (induction kps arbitrary: cl) (auto simp: addKeyPoint_distinct)

lemma clusterLoop_distinct:
  "distinct (map fst cl) \<Longrightarrow> distinct (map fst (clusterLoop i rs cl))"
  by (induction rs arbitrary: i cl) (auto simp: fold_addKeyPoint_distinct)

lemma buildClusters_distinct: "distinct (map fst (buildClusters rs))"
  by (simp add: buildClusters_def clusterLoop_distinct)

lemma setAdd_distinct: "distinct s \<Longrightarrow> distinct (setAdd x s)"
  by (simp add: setAdd_def)

lemma setAdd_nonempty: "setAdd x s \<noteq> []"
  by (simp add: setAdd_def) auto

lemma mapSet_setsOk: "setsOk m \<Longrightarrow> setsOk (mapSet k [it] m)"
  by (induction m) (auto simp: setsOk_def)

lemma addToFirstSimilar_setsOk:
  "addToFirstSimilar n it cl = Some cl' \<Longrightarrow> setsOk cl \<Longrightarrow> setsOk cl'"
  by (induction cl arbitrary: cl') (auto simp: setsOk_def setAdd_distinct setAdd_nonempty split: if_splits)

lemma addKeyPoint_setsOk: "setsOk cl \<Longrightarrow> setsOk (addKeyPoint it kp cl)"
  by (auto simp: addKeyPoint_def Let_def mapSet_setsOk addToFirstSimilar_setsOk split: option.splits)

lemma fold_addKeyPoint_setsOk: "setsOk cl \<Longrightarrow> setsOk (fold (addKeyPoint it) kps cl)"
  by (induction kps arbitrary: cl) (auto simp: addKeyPoint_setsOk)

lemma clusterLoop_setsOk: "setsOk cl \<Longrightarrow> setsOk (clusterLoop i rs cl)"
  by (induction rs arbitrary: i cl) (auto simp: fold_addKeyPoint_setsOk)

lemma buildClusters_setsOk: "setsOk (buildClusters rs)"
  unfolding buildClusters_def by (rule clusterLoop_setsOk) (simp add: setsOk_def)

lemma buildClusters_Nil: "buildClusters [] = []"
  by (simp add: buildClusters_def)

lemma fold_classify_core:
  "coreStableMessages (fold (classifyCluster T) cl acc)
     = coreStableMessages acc @ map fst (filter (isCore T) cl)"
  by (induction cl arbitrary: acc) (auto simp: classifyCluster_def Let_def isCore_def)

lemma fold_classify_variable:
  "variableMessages (fold (classifyCluster T) cl acc)
     = variableMessages acc @ map (variableEntry T) (filter (isVariable T) cl)"
  by (induction cl arbitrary: acc)
     (auto simp: classifyCluster_def Let_def isCore_def isVariable_def variableEntry_def)

lemma fold_classify_outliers:
  "outliers (fold (classifyCluster T) cl acc)
     = outliers acc @ map fst (filter (isOutlier T) cl)"
  by (induction cl arbitrary: acc)
     (auto simp: classifyCluster_def Let_def isCore_def isOutlier_def)

lemma classifyCluster_frequency:
  "keyPointFrequency (classifyCluster T e acc) = (keyPointFrequency acc)(fst e \<mapsto> length (snd e))"
  by (simp add: classifyCluster_def Let_def)

lemma fold_classify_frequency_other:
  "k \<notin> fst ` set cl \<Longrightarrow>
     keyPointFrequency (fold (classifyCluster T) cl acc) k = keyPointFrequency acc k"
  by (induction cl arbitrary: acc) (auto simp: classifyCluster_frequency)

lemma fold_classify_frequency:
  "distinct (map fst cl) \<Longrightarrow> (k, its) \<in> set cl \<Longrightarrow>
     keyPointFrequency (fold (classifyCluster T) cl acc) k = Some (length its)"
proof (induction cl arbitrary: acc)
  case Nil
  then show ?case by simp
next
  case (Cons e cl)
  show ?case
  proof (cases "e = (k, its)")
    case True
    with Cons.prems have "k \<notin> fst ` set cl" by auto
    then show ?thesis using True
      by (simp add: fold_classify_frequency_other classifyCluster_frequency)
  next
    case False
    with Cons show ?thesis by auto
  qed
qed

lemma fold_classify_dom:
  "dom (keyPointFrequency (fold (classifyCluster T) cl acc)) = dom (keyPointFrequency acc) \<union> fst ` set cl"
  by (induction cl arbitrary: acc) (auto simp: classifyCluster_frequency)

lemma bucket_cases: "isCore T e \<or> isVariable T e \<or> isOutlier T e"
  by (auto simp: isVariable_def isOutlier_def)

lemma count_list_filter_distinct:
  "distinct (map f xs) \<Longrightarrow> x \<in> set xs \<Longrightarrow>
     count_list (map f (filter P xs)) (f x) = (if P x then 1 else 0)"
proof (induction xs)
  case Nil
  then show ?case by simp
next
  case (Cons y ys)
  show ?case
  proof (cases "x = y")
    case True
    with Cons.prems have "f y \<notin> f ` set ys" by auto
    then have "count_list (map f (filter P ys)) (f y) = 0"
      by (auto simp: count_list_0_iff)
    with True show ?thesis by simp
  next
    case False
    with Cons.prems have "x \<in> set ys" "f y \<noteq> f x" by auto
    with Cons show ?thesis by auto
  qed
qed

lemma key_in_filter:
  assumes "distinct (map fst cl)" "(k, its) \<in> set cl"
  shows "k \<in> fst ` set (filter P cl) \<longleftrightarrow> P (k, its)"
proof
  assume "k \<in> fst ` set (filter P cl)"
  then obtain its' where m: "(k, its') \<in> set cl" and p: "P (k, its')" by auto
  from assms m have "its' = its" by (meson eq_key_imp_eq_value)
  with p show "P (k, its)" by simp
next
  assume "P (k, its)"
  with assms(2) show "k \<in> fst ` set (filter P cl)" by force
qed

lemma message_variableEntry: "message (variableEntry T e) = fst e"
  by (simp add: variableEntry_def)

lemma classify_core_set:
  "set (coreStableMessages (classifyKeyMessages rs))
     = fst ` set (filter (isCore (length rs)) (buildClusters rs))"
  by (simp add: classifyKeyMessages_def Let_def fold_classify_core noMessages_def)

lemma classify_outlier_set:
  "set (outliers (classifyKeyMessages rs))
     = fst ` set (filter (isOutlier (length rs)) (buildClusters rs))"
  by (simp add: classifyKeyMessages_def Let_def fold_classify_outliers noMessages_def)

lemma classify_variable_list:
  "variableMessages (classifyKeyMessages rs)
     = map (variableEntry (length rs)) (filter (isVariable (length rs)) (buildClusters rs))"
  by (simp add: classifyKeyMessages_def Let_def fold_classify_variable noMessages_def)

lemma classify_variable_set:
  "message ` set (variableMessages (classifyKeyMessages rs))
     = fst ` set (filter (isVariable (length rs)) (buildClusters rs))"
  by (simp add: classify_variable_list image_image message_variableEntry)

lemma bucket_membership:
  assumes "(k, its) \<in> set (buildClusters rs)"
  shows "k \<in> set (coreStableMessages (classifyKeyMessages rs)) \<longleftrightarrow> isCore (length rs) (k, its)"
    and "k \<in> message ` set (variableMessages (classifyKeyMessages rs)) \<longleftrightarrow> isVariable (length rs) (k, its)"
    and "k \<in> set (outliers (classifyKeyMessages rs)) \<longleftrightarrow> isOutlier (length rs) (k, its)"
  using key_in_filter [OF buildClusters_distinct assms]
  by (simp_all add: classify_core_set classify_variable_set classify_outlier_set)

lemma variable_entry_present:
  assumes "(k, its) \<in> set (buildClusters rs)" "isVariable (length rs) (k, its)"
  shows "variableEntry (length rs) (k, its) \<in> set (variableMessages (classifyKeyMessages rs))"
  using assms by (simp add: classify_variable_list)

lemma clusters_nonempty_run: "(k, its) \<in> set (buildClusters rs) \<Longrightarrow> 0 < length rs"
  by (cases rs) (auto simp: buildClusters_Nil)

text \<open>
  C5. Every cluster that \<open>classifyKeyMessages\<close> builds, with its frequency the size of its
  iteration set over the number of responses, goes to exactly the bucket of the
  thresholds: core from 0.8 on; variable from 0.3 on and below 0.8, as an entry with the
  rounded percentage and the iterations in ascending order; outlier below 0.3. With five
  responses, four appearances are core, two are variable, one is an outlier.
\<close>

theorem classification_thresholds:
  assumes "(k, its) \<in> set (buildClusters rs)"
  shows "(8 / 10 \<le> (of_nat (length its) / of_nat (length rs) :: rat) \<longrightarrow>
            k \<in> set (coreStableMessages (classifyKeyMessages rs))
          \<and> k \<notin> message ` set (variableMessages (classifyKeyMessages rs))
          \<and> k \<notin> set (outliers (classifyKeyMessages rs)))
       \<and> (3 / 10 \<le> (of_nat (length its) / of_nat (length rs) :: rat)
            \<and> (of_nat (length its) / of_nat (length rs) :: rat) < 8 / 10 \<longrightarrow>
            \<lparr>message = k,
             frequency = jsRound (of_nat (length its) / of_nat (length rs) * 100),
             appearancePattern = sort its\<rparr> \<in> set (variableMessages (classifyKeyMessages rs))
          \<and> k \<notin> set (coreStableMessages (classifyKeyMessages rs))
          \<and> k \<notin> set (outliers (classifyKeyMessages rs)))
       \<and> ((of_nat (length its) / of_nat (length rs) :: rat) < 3 / 10 \<longrightarrow>
            k \<in> set (outliers (classifyKeyMessages rs))
          \<and> k \<notin> set (coreStableMessages (classifyKeyMessages rs))
          \<and> k \<notin> message ` set (variableMessages (classifyKeyMessages rs)))
       \<and> (length rs = 5 \<and> length its = 4 \<longrightarrow> k \<in> set (coreStableMessages (classifyKeyMessages rs)))
       \<and> (length rs = 5 \<and> length its = 2 \<longrightarrow>
            k \<in> message ` set (variableMessages (classifyKeyMessages rs)))
       \<and> (length rs = 5 \<and> length its = 1 \<longrightarrow> k \<in> set (outliers (classifyKeyMessages rs)))"
proof -
  let ?T = "length rs"
  define f where "f = (of_nat (length its) / of_nat ?T :: rat)"
  have T: "0 < ?T" using assms by (rule clusters_nonempty_run)
  have fa: "frequencyAtLeast (length its) ?T thr \<longleftrightarrow> thr \<le> f" for thr
    using T by (simp add: frequencyAtLeast_def f_def)
  have core: "isCore ?T (k, its) \<longleftrightarrow> 8 / 10 \<le> f"
    by (simp add: isCore_def fa CORE_MESSAGE_THRESHOLD_def)
  have var: "isVariable ?T (k, its) \<longleftrightarrow> 3 / 10 \<le> f \<and> f < 8 / 10"
    by (auto simp: isVariable_def isCore_def fa CORE_MESSAGE_THRESHOLD_def VARIABLE_MESSAGE_THRESHOLD_def)
  have out: "isOutlier ?T (k, its) \<longleftrightarrow> f < 3 / 10"
    by (auto simp: isOutlier_def isCore_def fa CORE_MESSAGE_THRESHOLD_def VARIABLE_MESSAGE_THRESHOLD_def)
  note mem = bucket_membership [OF assms]
  have entry: "isVariable ?T (k, its) \<Longrightarrow>
      \<lparr>message = k, frequency = jsRound (f * 100), appearancePattern = sort its\<rparr>
        \<in> set (variableMessages (classifyKeyMessages rs))"
    using variable_entry_present [OF assms] by (simp add: variableEntry_def f_def)
  have c1: "8 / 10 \<le> f \<longrightarrow>
            k \<in> set (coreStableMessages (classifyKeyMessages rs))
          \<and> k \<notin> message ` set (variableMessages (classifyKeyMessages rs))
          \<and> k \<notin> set (outliers (classifyKeyMessages rs))"
    using mem core var out by auto
  have c2: "3 / 10 \<le> f \<and> f < 8 / 10 \<longrightarrow>
            \<lparr>message = k, frequency = jsRound (f * 100), appearancePattern = sort its\<rparr>
               \<in> set (variableMessages (classifyKeyMessages rs))
          \<and> k \<notin> set (coreStableMessages (classifyKeyMessages rs))
          \<and> k \<notin> set (outliers (classifyKeyMessages rs))"
    using mem core var out entry by auto
  have c3: "f < 3 / 10 \<longrightarrow>
            k \<in> set (outliers (classifyKeyMessages rs))
          \<and> k \<notin> set (coreStableMessages (classifyKeyMessages rs))
          \<and> k \<notin> message ` set (variableMessages (classifyKeyMessages rs))"
    using mem core var out by auto
  have c4: "length rs = 5 \<and> length its = 4 \<longrightarrow> k \<in> set (coreStableMessages (classifyKeyMessages rs))"
    using mem(1) core by (auto simp: f_def)
  have c5: "length rs = 5 \<and> length its = 2 \<longrightarrow>
            k \<in> message ` set (variableMessages (classifyKeyMessages rs))"
    using mem(2) var by (auto simp: f_def)
  have c6: "length rs = 5 \<and> length its = 1 \<longrightarrow> k \<in> set (outliers (classifyKeyMessages rs))"
    using mem(3) out by (auto simp: f_def)
  from c1 c2 c3 c4 c5 c6 show ?thesis unfolding f_def by blast
qed

lemma exampleRun_clusters:
  "buildClusters exampleRun =
     [(''asana tracks tasks'', [1, 2, 3, 4]),
      (''notion stores notes'', [2, 4]),
      (''trello boards'', [5])]"
  by code_simp

theorem classification_thresholds_witness:
  "(''notion stores notes'', [2, 4]) \<in> set (buildClusters exampleRun)
   \<and> \<lparr>message = ''notion stores notes'', frequency = 40, appearancePattern = [2, 4]\<rparr>
        \<in> set (variableMessages (classifyKeyMessages exampleRun))
   \<and> ''notion stores notes'' \<notin> set (coreStableMessages (classifyKeyMessages exampleRun))
   \<and> ''notion stores notes'' \<notin> set (outliers (classifyKeyMessages exampleRun))"
proof -
  have h: "(''notion stores notes'', [2, 4]) \<in> set (buildClusters exampleRun)"
    by (simp add: exampleRun_clusters)
  have len: "length exampleRun = 5" by (simp add: exampleRun_def)
  have r: "jsRound (of_nat (length [2::nat, 4]) / of_nat 5 * 100) = 40"
    by code_simp
  from classification_thresholds [OF h] h len r show ?thesis by simp
qed

text \<open>
  C9. \<open>classifyKeyMessages\<close> partitions its clusters: the representatives are pairwise
  different; each occurs once in exactly one of \<open>coreStableMessages\<close>, \<open>variableMessages\<close>
  and \<open>outliers\<close>, which hold nothing else; and \<open>keyPointFrequency\<close> has exactly the
  representatives as keys, each with the number of distinct iterations of its cluster.
\<close>

theorem classification_partitions_clusters:
  "distinct (map fst (buildClusters rs))
   \<and> (\<forall>e \<in> set (buildClusters rs).
        count_list (coreStableMessages (classifyKeyMessages rs)) (fst e)
        + count_list (map message (variableMessages (classifyKeyMessages rs))) (fst e)
        + count_list (outliers (classifyKeyMessages rs)) (fst e) = 1
      \<and> keyPointFrequency (classifyKeyMessages rs) (fst e) = Some (card (set (snd e))))
   \<and> set (coreStableMessages (classifyKeyMessages rs))
       \<union> message ` set (variableMessages (classifyKeyMessages rs))
       \<union> set (outliers (classifyKeyMessages rs)) = fst ` set (buildClusters rs)
   \<and> dom (keyPointFrequency (classifyKeyMessages rs)) = fst ` set (buildClusters rs)"
proof -
  let ?cl = "buildClusters rs" and ?T = "length rs"
  have d: "distinct (map fst ?cl)" by (rule buildClusters_distinct)
  have core: "coreStableMessages (classifyKeyMessages rs) = map fst (filter (isCore ?T) ?cl)"
    by (simp add: classifyKeyMessages_def Let_def fold_classify_core noMessages_def)
  have out: "outliers (classifyKeyMessages rs) = map fst (filter (isOutlier ?T) ?cl)"
    by (simp add: classifyKeyMessages_def Let_def fold_classify_outliers noMessages_def)
  have var: "map message (variableMessages (classifyKeyMessages rs)) = map fst (filter (isVariable ?T) ?cl)"
    by (simp add: classify_variable_list message_variableEntry)
  have each: "count_list (coreStableMessages (classifyKeyMessages rs)) (fst e)
        + count_list (map message (variableMessages (classifyKeyMessages rs))) (fst e)
        + count_list (outliers (classifyKeyMessages rs)) (fst e) = 1
      \<and> keyPointFrequency (classifyKeyMessages rs) (fst e) = Some (card (set (snd e)))"
    if e: "e \<in> set ?cl" for e
  proof -
    have one: "(if isCore ?T e then 1 else 0) + (if isVariable ?T e then 1 else 0)
                 + (if isOutlier ?T e then 1 else (0::nat)) = 1"
      by (auto simp: isVariable_def isOutlier_def)
    have dist: "distinct (snd e)"
      using buildClusters_setsOk [of rs] e by (auto simp: setsOk_def list_all_iff)
    have "keyPointFrequency (classifyKeyMessages rs) (fst e) = Some (length (snd e))"
      using fold_classify_frequency [OF d, of "fst e" "snd e"] e
      by (simp add: classifyKeyMessages_def Let_def)
    with dist one show ?thesis
      by (simp add: core var out count_list_filter_distinct [OF d e] distinct_card)
  qed
  have sets: "set (coreStableMessages (classifyKeyMessages rs))
       \<union> message ` set (variableMessages (classifyKeyMessages rs))
       \<union> set (outliers (classifyKeyMessages rs)) = fst ` set ?cl"
    using bucket_cases [of ?T]
    by (auto simp: classify_core_set classify_variable_set classify_outlier_set) force
  have dm: "dom (keyPointFrequency (classifyKeyMessages rs)) = fst ` set ?cl"
    by (simp add: classifyKeyMessages_def Let_def fold_classify_dom noMessages_def)
  from d each sets dm show ?thesis by blast
qed

theorem classification_partitions_clusters_witness:
  "keyPointFrequency (classifyKeyMessages exampleRun) ''asana tracks tasks'' = Some 4
   \<and> count_list (coreStableMessages (classifyKeyMessages exampleRun)) ''asana tracks tasks''
     + count_list (map message (variableMessages (classifyKeyMessages exampleRun))) ''asana tracks tasks''
     + count_list (outliers (classifyKeyMessages exampleRun)) ''asana tracks tasks'' = 1"
proof -
  have h: "(''asana tracks tasks'', [1, 2, 3, 4]) \<in> set (buildClusters exampleRun)"
    by (simp add: exampleRun_clusters)
  have c: "card (set [1::nat, 2, 3, 4]) = 4" by simp
  from classification_partitions_clusters [of exampleRun] h c show ?thesis by fastforce
qed

section \<open>Key-point similarity\<close>

lemma shareWordStem_sym: "shareWordStem a b = shareWordStem b a"
  by (auto simp: shareWordStem_def Let_def min.commute)

lemma areSynonyms_sym: "areSynonyms a b = areSynonyms b a"
  by (auto simp: areSynonyms_def list_ex_iff)

lemma filter_nonempty_iff: "0 < length (filter P xs) \<longleftrightarrow> (\<exists>x \<in> set xs. P x)"
  by (induction xs) auto

lemma directOverlap_pos_sym: "0 < directOverlap A B \<longleftrightarrow> 0 < directOverlap B A"
  unfolding directOverlap_def filter_nonempty_iff by blast

lemma shareWordStem_symD: "shareWordStem a b \<Longrightarrow> shareWordStem b a"
  using shareWordStem_sym [of a b] by simp

lemma areSynonyms_symD: "areSynonyms a b \<Longrightarrow> areSynonyms b a"
  using areSynonyms_sym [of a b] by simp

lemma exists_pair_sym:
  assumes "\<And>x y. R x y \<Longrightarrow> R y x"
  shows "(\<exists>x \<in> set A. list_ex (\<lambda>y. x \<noteq> y \<and> R x y) B)
         \<longleftrightarrow> (\<exists>y \<in> set B. list_ex (\<lambda>x. y \<noteq> x \<and> R y x) A)"
proof
  assume "\<exists>x \<in> set A. list_ex (\<lambda>y. x \<noteq> y \<and> R x y) B"
  then obtain x y where "x \<in> set A" "y \<in> set B" "x \<noteq> y" "R x y" by (auto simp: list_ex_iff)
  then have "y \<in> set B" "x \<in> set A" "y \<noteq> x" "R y x" using assms by auto
  then show "\<exists>y \<in> set B. list_ex (\<lambda>x. y \<noteq> x \<and> R y x) A" by (auto simp: list_ex_iff)
next
  assume "\<exists>y \<in> set B. list_ex (\<lambda>x. y \<noteq> x \<and> R y x) A"
  then obtain x y where "x \<in> set A" "y \<in> set B" "y \<noteq> x" "R y x" by (auto simp: list_ex_iff)
  then have "x \<in> set A" "y \<in> set B" "x \<noteq> y" "R x y" using assms by auto
  then show "\<exists>x \<in> set A. list_ex (\<lambda>y. x \<noteq> y \<and> R x y) B" by (auto simp: list_ex_iff)
qed

lemma stemOverlap_pos_sym: "0 < stemOverlap A B \<longleftrightarrow> 0 < stemOverlap B A"
  unfolding stemOverlap_def filter_nonempty_iff
  by (rule exists_pair_sym) (rule shareWordStem_symD)

lemma conceptOverlap_pos_sym: "0 < conceptOverlap A B \<longleftrightarrow> 0 < conceptOverlap B A"
  unfolding conceptOverlap_def filter_nonempty_iff
  by (rule exists_pair_sym) (rule areSynonyms_symD)

lemma similarity_small:
  assumes "1 \<le> min (length A) (length B)" "min (length A) (length B) \<le> 2"
  shows "3 / 10 \<le> similarityOf A B
         \<longleftrightarrow> 0 < directOverlap A B \<or> 0 < stemOverlap A B \<or> 0 < conceptOverlap A B"
proof -
  define d s c where "d = directOverlap A B" and "s = stemOverlap A B" and "c = conceptOverlap A B"
  define m where "m = min (length A) (length B)"
  have m: "m = 1 \<or> m = 2" using assms by (auto simp: m_def)
  have sim: "similarityOf A B = (of_nat d + of_nat s * (8 / 10) + of_nat c * (7 / 10)) / of_nat m"
    by (simp add: similarityOf_def Let_def d_def s_def c_def m_def)
  have nonneg: "(0::rat) \<le> of_nat d" "(0::rat) \<le> of_nat s" "(0::rat) \<le> of_nat c" by simp_all
  show ?thesis
  proof (cases "d = 0 \<and> s = 0 \<and> c = 0")
    case True
    then have "similarityOf A B = 0" by (simp add: sim)
    with True show ?thesis by (simp add: d_def s_def c_def)
  next
    case False
    then have "1 \<le> d \<or> 1 \<le> s \<or> 1 \<le> c" by auto
    then have "(1::rat) \<le> of_nat d \<or> (1::rat) \<le> of_nat s \<or> (1::rat) \<le> of_nat c"
      by (metis of_nat_1 of_nat_le_iff)
    with nonneg have "(7 / 10 :: rat) \<le> of_nat d + of_nat s * (8 / 10) + of_nat c * (7 / 10)"
      by (elim disjE) linarith+
    then have "3 / 10 \<le> similarityOf A B" using m by (elim disjE) (simp_all add: sim)
    with False show ?thesis by (auto simp: d_def s_def c_def)
  qed
qed

text \<open>
  C3 as stated fails: the stem overlap counts the words of the first key point that have a
  partner in the second, so three words sharing a stem with one word of the other key
  point count three times in one direction and once in the other.
\<close>

theorem similar_key_points_not_symmetric:
  "areSimilarKeyPoints ''planned planner planning'' ''plans zebra mango''
   \<and> \<not> areSimilarKeyPoints ''plans zebra mango'' ''planned planner planning''"
  by code_simp

text \<open>
  C3, amended. \<open>areSimilarKeyPoints\<close> returns the same for (A, B) and (B, A) whenever the
  smaller of the two sets of significant words has at most two words.
\<close>

theorem similar_key_points_symmetric_small:
  assumes "min (length (getSignificantWords a)) (length (getSignificantWords b)) \<le> 2"
  shows "areSimilarKeyPoints a b = areSimilarKeyPoints b a"
proof (cases "length (getSignificantWords a) = 0 \<or> length (getSignificantWords b) = 0")
  case True
  then show ?thesis by (auto simp: areSimilarKeyPoints_def Let_def)
next
  case False
  let ?A = "getSignificantWords a" and ?B = "getSignificantWords b"
  from False have one: "1 \<le> min (length ?A) (length ?B)" by (simp add: Suc_leI)
  have ab: "3 / 10 \<le> similarityOf ?A ?B
        \<longleftrightarrow> 0 < directOverlap ?A ?B \<or> 0 < stemOverlap ?A ?B \<or> 0 < conceptOverlap ?A ?B"
    using one assms by (rule similarity_small)
  have ba: "3 / 10 \<le> similarityOf ?B ?A
        \<longleftrightarrow> 0 < directOverlap ?B ?A \<or> 0 < stemOverlap ?B ?A \<or> 0 < conceptOverlap ?B ?A"
    using one assms by (intro similarity_small) (simp_all add: min.commute)
  from False ab ba show ?thesis
    using directOverlap_pos_sym [of ?A ?B] stemOverlap_pos_sym [of ?A ?B]
      conceptOverlap_pos_sym [of ?A ?B]
    by (simp add: areSimilarKeyPoints_def Let_def)
qed

theorem similar_key_points_symmetric_small_witness:
  "min (length (getSignificantWords ''asana tasks'')) (length (getSignificantWords ''trello tasks'')) \<le> 2
   \<and> areSimilarKeyPoints ''asana tasks'' ''trello tasks''
     = areSimilarKeyPoints ''trello tasks'' ''asana tasks''"
proof -
  have h: "min (length (getSignificantWords ''asana tasks''))
             (length (getSignificantWords ''trello tasks'')) \<le> 2"
    by code_simp
  from similar_key_points_symmetric_small [OF h] h show ?thesis by simp
qed

section \<open>Brand detection\<close>

lemma detectStep_distinct:
  "distinct (map spanOf detected) \<Longrightarrow> distinct (map spanOf (detectStep db minConf ws pair detected))"
  by (auto simp: detectStep_def Let_def spanOf_def list_ex_iff split: option.splits)

lemma fold_detectStep_distinct:
  "distinct (map spanOf detected) \<Longrightarrow>
     distinct (map spanOf (fold (detectStep db minConf ws) pairs detected))"
  by (induction pairs arbitrary: detected) (auto simp: detectStep_distinct)

lemma distinct_map_sort_key:
  "distinct (map f xs) \<Longrightarrow> distinct (map f (sort_key k xs))"
  by (simp add: distinct_map)

lemma sliceTo_take: "\<exists>n. sliceTo m xs = take n xs"
  by (cases m) (auto simp: sliceTo_def intro: exI [of _ "length xs"])

lemma sorted_map_take: "sorted (map f xs) \<Longrightarrow> sorted (map f (take n xs))"
  by (metis sorted_wrt_take take_map)

lemma distinct_map_take: "distinct (map f xs) \<Longrightarrow> distinct (map f (take n xs))"
  by (metis distinct_take take_map)

text \<open>
  C4, amended. For every database, text and options, the occurrences that \<open>detectBrands\<close>
  returns are in ascending order of their start offsets, equal starts allowed, and no two
  of them have the same pair of start and end offset. Their spans may overlap.
\<close>

theorem detectBrands_ordered_distinct:
  "sorted (map startIndex (detectBrands db txt options))
   \<and> distinct (map spanOf (detectBrands db txt options))"
proof -
  let ?minConf = "case minConfidence options of None \<Rightarrow> Low | Some c \<Rightarrow> c"
  let ?ws = "tokenize txt"
  let ?detected = "fold (detectStep db ?minConf ?ws) (candidateSpans (length ?ws)) []"
  obtain n where n: "detectBrands db txt options = take n (sort_key startIndex ?detected)"
    using sliceTo_take [of "maxResults options" "sort_key startIndex ?detected"]
    by (auto simp: detectBrands_def Let_def)
  have "distinct (map spanOf ?detected)"
    by (rule fold_detectStep_distinct) simp
  then have d: "distinct (map spanOf (sort_key startIndex ?detected))"
    by (rule distinct_map_sort_key)
  have s: "sorted (map startIndex (sort_key startIndex ?detected))"
    by (rule sorted_sort_key)
  from n d s show ?thesis
    by (simp add: sorted_map_take distinct_map_take)
qed

text \<open>
  C4 as stated fails: a brand name that begins another, longer brand name is reported
  together with it, from the same start offset.
\<close>

theorem detectBrands_spans_overlap:
  "map spanOf (detectBrands exampleDatabase ''Google Cloud'' defaultOptions) = [(0, 6), (0, 12)]
   \<and> spansOverlap (detectBrands exampleDatabase ''Google Cloud'' defaultOptions ! 0)
                  (detectBrands exampleDatabase ''Google Cloud'' defaultOptions ! 1)"
  by code_simp

section \<open>The consistency score\<close>


lemma calculateConfidenceScore_range:
  "0 \<le> calculateConfidenceScore overlap stats n \<and> calculateConfidenceScore overlap stats n \<le> 100"
  by (simp add: calculateConfidenceScore_def Let_def)



section \<open>The text normalizer\<close>

subsection \<open>Neighbouring characters\<close>

lemma hasPair_Cons: "hasPair R (x # s) \<longleftrightarrow> (s \<noteq> [] \<and> R x (hd s)) \<or> hasPair R s"
  by (cases s) auto

lemma hasPair_tl: "hasPair R s \<Longrightarrow> hasPair R (x # s)"
  by (simp add: hasPair_Cons)

lemma hasPair_append_right: "hasPair R s \<Longrightarrow> hasPair R (a @ s)"
  by (induction a) (auto simp: hasPair_tl)




lemma hasPair_drop: "hasPair R (drop n s) \<Longrightarrow> hasPair R s"
  by (metis append_take_drop_id hasPair_append_right)


subsection \<open>Trimming\<close>







subsection \<open>Shortening runs\<close>











subsection \<open>The run patterns\<close>





subsection \<open>Patterns that need a marker\<close>




lemma markerFree_head: "markerFree (c # cs) \<Longrightarrow> c \<notin> set markerChars"
  by (simp add: markerFree_def)









subsection \<open>Whitespace\<close>









section \<open>Sentiment\<close>

subsection \<open>Matches are the whole-word occurrences\<close>

lemma ciPrefix_iff:
  "ciPrefix lit t \<longleftrightarrow> length lit \<le> length t \<and> toLowerCase (take (length lit) t) = toLowerCase lit"
  by (induction lit t rule: ciPrefix.induct) (auto simp: toLowerCase_def)

lemma matchWordAt_iff:
  "matchWordAt lit prev t \<longleftrightarrow>
     lit \<noteq> [] \<and> length lit \<le> length t \<and> toLowerCase (take (length lit) t) = toLowerCase lit
     \<and> wordBoundary prev (headOption t)
     \<and> wordBoundary (lastOption (take (length lit) t)) (headOption (drop (length lit) t))"
proof (cases t)
  case Nil
  then show ?thesis by (auto simp: matchWordAt_def)
next
  case (Cons c cs)
  then show ?thesis
    by (cases lit) (auto simp: matchWordAt_def ciPrefix_iff headOption_def lastOption_def split: list.splits)
qed

lemma wholeWordAt_split:
  "wholeWordAt lit (pre @ t) (length pre) \<longleftrightarrow> matchWordAt lit (lastOption pre) t"
proof -
  have h: "lit \<noteq> [] \<Longrightarrow> length lit \<le> length t \<Longrightarrow> headOption (take (length lit) t) = headOption t"
    by (cases t; cases lit) (auto simp: headOption_def)
  show ?thesis
    by (auto simp: wholeWordAt_def matchWordAt_iff Let_def h)
qed

lemma toLowerChar_other: "c \<notin> set (asciiUpper @ latinUpper) \<Longrightarrow> toLowerChar c = c"
proof -
  assume "c \<notin> set (asciiUpper @ latinUpper)"
  then have "map_of (zip (asciiUpper @ latinUpper) (asciiLower @ latinLower)) c = None"
    by (simp add: map_of_zip_is_None asciiUpper_def latinUpper_def asciiLower_def latinLower_def)
  then show ?thesis by (simp add: toLowerChar_def)
qed

lemma isWordChar_lower: "isWordChar (toLowerChar c) = isWordChar c"
proof (cases "c \<in> set (asciiUpper @ latinUpper)")
  case False
  then show ?thesis by (simp add: toLowerChar_other)
next
  case True
  then show ?thesis
    unfolding asciiUpper_def latinUpper_def
    by (auto simp: toLowerChar_def isWordChar_def asciiUpper_def latinUpper_def asciiLower_def latinLower_def)
qed

lemma isWordChar_cong: "toLowerChar a = toLowerChar b \<Longrightarrow> isWordChar a = isWordChar b"
  by (metis isWordChar_lower)

lemma wordBoundary_Some: "wordBoundary (Some a) (Some b) \<longleftrightarrow> isWordChar a \<noteq> isWordChar b"
  by (simp add: wordBoundary_def)

lemma lower_nth:
  "toLowerCase a = toLowerCase b \<Longrightarrow> j < length a \<Longrightarrow> toLowerChar (a ! j) = toLowerChar (b ! j)"
  unfolding toLowerCase_def by (metis length_map nth_map)

lemma overlap_gives_selfOverlap:
  assumes a: "wholeWordAt lit s i" and b: "wholeWordAt lit s (i + k)" and k: "0 < k" "k < length lit"
  shows "selfOverlapAt lit k"
proof -
  let ?n = "length lit"
  let ?m1 = "take ?n (drop i s)" and ?m2 = "take ?n (drop (i + k) s)"
  from a have l1: "length ?m1 = ?n" and e1: "toLowerCase ?m1 = toLowerCase lit"
    by (simp_all add: wholeWordAt_def Let_def)
  from b have l2: "length ?m2 = ?n" and e2: "toLowerCase ?m2 = toLowerCase lit"
    and bd: "wordBoundary (lastOption (take (i + k) s)) (headOption ?m2)"
    by (simp_all add: wholeWordAt_def Let_def)
  from l1 k have len1: "i + ?n \<le> length s" by (simp add: min_def split: if_splits)
  from l2 k have len2: "i + k + ?n \<le> length s" by (simp add: min_def split: if_splits)
  have "take (?n - k) ?m2 = drop k ?m1"
    by (simp add: drop_take min_def add.commute)
  then have "toLowerCase (take (?n - k) ?m2) = toLowerCase (drop k ?m1)" by simp
  then have "take (?n - k) (toLowerCase ?m2) = drop k (toLowerCase ?m1)"
    by (simp add: toLowerCase_def take_map drop_map)
  then have pre: "toLowerCase (take (?n - k) lit) = toLowerCase (drop k lit)"
    unfolding e1 e2 by (simp add: toLowerCase_def take_map drop_map)
  have ne: "take (i + k) s \<noteq> []" using k len2 by (cases s) auto
  have "length (take (i + k) s) = i + k" using len2 by simp
  then have "last (take (i + k) s) = s ! (i + k - 1)"
    using ne k by (simp add: last_conv_nth)
  with ne have last: "lastOption (take (i + k) s) = Some (s ! (i + k - 1))"
    by (simp add: lastOption_def)
  have head: "headOption ?m2 = Some (s ! (i + k))"
    using k len2 by (cases "drop (i + k) s"; cases lit) (auto simp: headOption_def hd_drop_conv_nth dest: arg_cong [where f = hd])
  have m1a: "?m1 ! (k - 1) = s ! (i + k - 1)" using k len1 by simp
  have m1b: "?m1 ! k = s ! (i + k)" using k len1 by simp
  have w1: "isWordChar (s ! (i + k - 1)) = isWordChar (lit ! (k - 1))"
    using lower_nth [OF e1, of "k - 1"] k l1 m1a by (metis isWordChar_cong less_imp_diff_less)
  have w2: "isWordChar (s ! (i + k)) = isWordChar (lit ! k)"
    using lower_nth [OF e1, of k] k l1 m1b by (metis isWordChar_cong)
  from bd have "wordBoundary (Some (lit ! (k - 1))) (Some (lit ! k))"
    unfolding last head wordBoundary_Some w1 w2 .
  with pre show ?thesis by (simp add: selfOverlapAt_def)
qed

lemma no_occurrence_inside:
  assumes "noSelfOverlap lit" "wholeWordAt lit s i" "i < j" "j < i + length lit"
  shows "\<not> wholeWordAt lit s j"
proof
  assume "wholeWordAt lit s j"
  with assms(2-4) have "selfOverlapAt lit (j - i)"
    using overlap_gives_selfOverlap [of lit s i "j - i"] by simp
  moreover from assms(3,4) have "j - i \<in> set [1..<length lit]" by auto
  with assms(1) have "\<not> selfOverlapAt lit (j - i)"
    unfolding noSelfOverlap_def list_all_iff by blast
  ultimately show False by simp
qed

lemma wholeWordAt_bound:
  assumes "wholeWordAt lit s i"
  shows "i + length lit \<le> length s"
proof -
  from assms have "lit \<noteq> []" and l: "length (take (length lit) (drop i s)) = length lit"
    by (simp_all add: wholeWordAt_def Let_def)
  then have p: "0 < length lit" by simp
  from l have "min (length lit) (length s - i) = length lit" by simp
  then have "length lit \<le> length s - i" by (metis min.cobounded2)
  with p show ?thesis by linarith
qed

lemma execAll_positions:
  assumes "noSelfOverlap lit"
  shows "set (execAll lit (lastOption pre) (length pre) t)
           = {i. length pre \<le> i \<and> wholeWordAt lit (pre @ t) i}
         \<and> sorted_wrt (<) (execAll lit (lastOption pre) (length pre) t)"
proof (induction t arbitrary: pre rule: length_induct)
  case (1 t)
  show ?case
  proof (cases t)
    case Nil
    have "\<not> wholeWordAt lit pre i" if "length pre \<le> i" for i
      using wholeWordAt_bound [of lit pre i] that by (auto simp: wholeWordAt_def)
    with Nil show ?thesis by auto
  next
    case (Cons c cs)
    let ?n = "length lit"
    show ?thesis
    proof (cases "matchWordAt lit (lastOption pre) t")
      case True
      then have here: "wholeWordAt lit (pre @ t) (length pre)" by (simp add: wholeWordAt_split)
      from True have n: "0 < ?n" "?n \<le> length t" by (auto simp: matchWordAt_iff)
      let ?pre' = "pre @ take ?n t" and ?t' = "drop ?n t"
      have split: "?pre' @ ?t' = pre @ t" by simp
      have lp: "length ?pre' = length pre + ?n" using n by simp
      have lo: "lastOption ?pre' = Some (last (take ?n t))"
        using n Cons by (auto simp: lastOption_def)
      have d: "drop (?n - 1) cs = ?t'" using n Cons by (cases ?n) auto
      have shorter: "length ?t' < length t" using n Cons by simp
      from 1 shorter have "set (execAll lit (lastOption ?pre') (length ?pre') ?t')
           = {i. length ?pre' \<le> i \<and> wholeWordAt lit (?pre' @ ?t') i}
         \<and> sorted_wrt (<) (execAll lit (lastOption ?pre') (length ?pre') ?t')"
        by blast
      then have ih: "set (execAll lit (lastOption ?pre') (length ?pre') ?t')
           = {i. length pre + ?n \<le> i \<and> wholeWordAt lit (pre @ t) i}"
        and ihs: "sorted_wrt (<) (execAll lit (lastOption ?pre') (length ?pre') ?t')"
        unfolding split lp by simp_all
      have ex: "execAll lit (lastOption pre) (length pre) t
                  = length pre # execAll lit (lastOption ?pre') (length ?pre') ?t'"
        using True Cons d lo lp by simp
      have inside: "\<not> wholeWordAt lit (pre @ t) j" if "length pre < j" "j < length pre + ?n" for j
        using no_occurrence_inside [OF assms here] that by blast
      have "set (execAll lit (lastOption pre) (length pre) t)
              = {i. length pre \<le> i \<and> wholeWordAt lit (pre @ t) i}"
      proof (intro set_eqI iffI)
        fix i assume "i \<in> set (execAll lit (lastOption pre) (length pre) t)"
        then have "i = length pre \<or> (length pre + ?n \<le> i \<and> wholeWordAt lit (pre @ t) i)"
          unfolding ex using ih by auto
        with here show "i \<in> {i. length pre \<le> i \<and> wholeWordAt lit (pre @ t) i}" by auto
      next
        fix i assume "i \<in> {i. length pre \<le> i \<and> wholeWordAt lit (pre @ t) i}"
        then have i: "length pre \<le> i" "wholeWordAt lit (pre @ t) i" by auto
        with inside have "i = length pre \<or> length pre + ?n \<le> i"
          by (metis le_neq_implies_less not_le_imp_less)
        with i show "i \<in> set (execAll lit (lastOption pre) (length pre) t)"
          unfolding ex using ih by auto
      qed
      moreover have gt: "length pre < x" if "length pre + ?n \<le> x" for x
        using n that by linarith
      have "sorted_wrt (<) (execAll lit (lastOption pre) (length pre) t)"
        unfolding ex using ih ihs gt by auto
      ultimately show ?thesis by simp
    next
      case False
      then have nothere: "\<not> wholeWordAt lit (pre @ t) (length pre)" by (simp add: wholeWordAt_split)
      let ?pre' = "pre @ [c]"
      have split: "?pre' @ cs = pre @ t" using Cons by simp
      have shorter: "length cs < length t" using Cons by simp
      from 1 shorter have ih: "set (execAll lit (lastOption ?pre') (length ?pre') cs)
           = {i. length ?pre' \<le> i \<and> wholeWordAt lit (?pre' @ cs) i}
         \<and> sorted_wrt (<) (execAll lit (lastOption ?pre') (length ?pre') cs)"
        by blast
      have ex: "execAll lit (lastOption pre) (length pre) t
                  = execAll lit (lastOption ?pre') (length ?pre') cs"
        using False Cons by (simp add: lastOption_def)
      have "{i. length ?pre' \<le> i \<and> wholeWordAt lit (pre @ t) i}
              = {i. length pre \<le> i \<and> wholeWordAt lit (pre @ t) i}"
      proof (intro set_eqI iffI)
        fix i assume "i \<in> {i. length ?pre' \<le> i \<and> wholeWordAt lit (pre @ t) i}"
        then show "i \<in> {i. length pre \<le> i \<and> wholeWordAt lit (pre @ t) i}" by simp
      next
        fix i assume "i \<in> {i. length pre \<le> i \<and> wholeWordAt lit (pre @ t) i}"
        then have i: "length pre \<le> i" "wholeWordAt lit (pre @ t) i" by simp_all
        with nothere have "i \<noteq> length pre" by blast
        with i show "i \<in> {i. length ?pre' \<le> i \<and> wholeWordAt lit (pre @ t) i}" by simp
      qed
      with ih show ?thesis unfolding ex split by simp
    qed
  qed
qed

lemma execAll_counts_whole_words:
  assumes "noSelfOverlap lit"
  shows "length (execAll lit None 0 s) = card {i. wholeWordAt lit s i}"
proof -
  from execAll_positions [OF assms, of "[]" s]
  have s: "set (execAll lit None 0 s) = {i. wholeWordAt lit s i}"
    and d: "sorted_wrt (<) (execAll lit None 0 s)"
    by (simp_all add: lastOption_def)
  from d have "distinct (execAll lit None 0 s)" by (simp add: strict_sorted_iff)
  then show ?thesis using s by (metis distinct_card)
qed

lemma indicators_noSelfOverlap:
  "list_all noSelfOverlap POSITIVE_INDICATORS" "list_all noSelfOverlap NEGATIVE_INDICATORS"
  by code_simp+

lemma toLowerChar_idem: "toLowerChar (toLowerChar c) = toLowerChar c"
proof (cases "c \<in> set (asciiUpper @ latinUpper)")
  case False
  then show ?thesis by (simp add: toLowerChar_other)
next
  case True
  then have "toLowerChar c \<notin> set (asciiUpper @ latinUpper)"
    unfolding asciiUpper_def latinUpper_def
    by (auto simp: toLowerChar_def asciiUpper_def latinUpper_def asciiLower_def latinLower_def)
  then show ?thesis by (rule toLowerChar_other)
qed

lemma toLowerCase_idem: "toLowerCase (toLowerCase s) = toLowerCase s"
  by (simp add: toLowerCase_def toLowerChar_idem)

lemma lastOption_lower: "lastOption (toLowerCase s) = map_option toLowerChar (lastOption s)"
  by (simp add: lastOption_def toLowerCase_def last_map)

lemma headOption_lower: "headOption (toLowerCase s) = map_option toLowerChar (headOption s)"
  by (cases s) (simp_all add: headOption_def toLowerCase_def)

lemma wordBoundary_lower:
  "wordBoundary (map_option toLowerChar a) (map_option toLowerChar b) = wordBoundary a b"
  by (cases a; cases b) (simp_all add: wordBoundary_def isWordChar_lower)

lemma wholeWordAt_lower: "wholeWordAt lit (toLowerCase s) i = wholeWordAt lit s i"
proof -
  have t: "take n (toLowerCase s) = toLowerCase (take n s)" for n
    by (simp add: toLowerCase_def take_map)
  have d: "drop n (toLowerCase s) = toLowerCase (drop n s)" for n
    by (simp add: toLowerCase_def drop_map)
  have t': "take n (toLowerCase u) = toLowerCase (take n u)" for n u
    by (simp add: toLowerCase_def take_map)
  have l: "length (toLowerCase u) = length u" for u by (simp add: toLowerCase_def)
  show ?thesis
    unfolding wholeWordAt_def Let_def t d t' l toLowerCase_idem lastOption_lower headOption_lower
      wordBoundary_lower ..
qed

lemma countMatches_whole_words:
  assumes "list_all noSelfOverlap indicators"
  shows "countMatches indicators (toLowerCase txt)
           = sum_list (map (\<lambda>word. card {i. wholeWordAt word txt i}) indicators)"
proof -
  have "length (execAll word None 0 (toLowerCase txt)) = card {i. wholeWordAt word txt i}"
    if "word \<in> set indicators" for word
  proof -
    from assms that have "noSelfOverlap word" by (simp add: list_all_iff)
    then show ?thesis by (simp add: execAll_counts_whole_words wholeWordAt_lower)
  qed
  then show ?thesis unfolding countMatches_def by (simp cong: map_cong)
qed

subsection \<open>The classification\<close>

text \<open>
  C7. For every text, the positive and the negative score of \<open>analyzeSentiment\<close> are the
  numbers of whole-word occurrences in the text, without regard to case, of the
  indicators of the positive and of the negative list; it returns positive exactly when
  the positive score exceeds 1.5 times the negative score, negative exactly when the
  negative score exceeds 1.5 times the positive score, and neutral otherwise.
\<close>

theorem analyzeSentiment_rule:
  "positiveScore txt = sum_list (map (\<lambda>word. card {i. wholeWordAt word txt i}) POSITIVE_INDICATORS)
   \<and> negativeScore txt = sum_list (map (\<lambda>word. card {i. wholeWordAt word txt i}) NEGATIVE_INDICATORS)
   \<and> (analyzeSentiment txt = Positive
      \<longleftrightarrow> (of_nat (positiveScore txt) :: rat) > of_nat (negativeScore txt) * (15 / 10))
   \<and> (analyzeSentiment txt = Negative
      \<longleftrightarrow> (of_nat (negativeScore txt) :: rat) > of_nat (positiveScore txt) * (15 / 10))
   \<and> (analyzeSentiment txt = Neutral
      \<longleftrightarrow> \<not> (of_nat (positiveScore txt) :: rat) > of_nat (negativeScore txt) * (15 / 10)
          \<and> \<not> (of_nat (negativeScore txt) :: rat) > of_nat (positiveScore txt) * (15 / 10))"
proof -
  define p n where "p = (of_nat (positiveScore txt) :: rat)" and "n = (of_nat (negativeScore txt) :: rat)"
  have nonneg: "0 \<le> p" "0 \<le> n" by (simp_all add: p_def n_def)
  have excl: "\<not> (p > n * (15 / 10) \<and> n > p * (15 / 10))"
    using nonneg by auto
  have a: "analyzeSentiment txt =
      (if p > n * (15 / 10) then Positive else if n > p * (15 / 10) then Negative else Neutral)"
    by (simp add: analyzeSentiment_def p_def n_def)
  have rule: "(analyzeSentiment txt = Positive \<longleftrightarrow> p > n * (15 / 10))
      \<and> (analyzeSentiment txt = Negative \<longleftrightarrow> n > p * (15 / 10))
      \<and> (analyzeSentiment txt = Neutral \<longleftrightarrow> \<not> p > n * (15 / 10) \<and> \<not> n > p * (15 / 10))"
    using excl unfolding a by auto
  have ps: "positiveScore txt
      = sum_list (map (\<lambda>word. card {i. wholeWordAt word txt i}) POSITIVE_INDICATORS)"
    unfolding positiveScore_def by (rule countMatches_whole_words) (rule indicators_noSelfOverlap)
  have ns: "negativeScore txt
      = sum_list (map (\<lambda>word. card {i. wholeWordAt word txt i}) NEGATIVE_INDICATORS)"
    unfolding negativeScore_def by (rule countMatches_whole_words) (rule indicators_noSelfOverlap)
  from rule ps ns show ?thesis unfolding p_def n_def by blast
qed

theorem analyzeSentiment_rule_witness:
  "positiveScore ''This is an excellent product with outstanding quality and reliable performance'' = 4
   \<and> negativeScore ''This is an excellent product with outstanding quality and reliable performance'' = 0
   \<and> analyzeSentiment ''This is an excellent product with outstanding quality and reliable performance''
       = Positive"
proof -
  let ?t = "''This is an excellent product with outstanding quality and reliable performance''"
  have p: "positiveScore ?t = 4" by code_simp
  have n: "negativeScore ?t = 0" by code_simp
  from analyzeSentiment_rule [of ?t] have "analyzeSentiment ?t = Positive
      \<longleftrightarrow> (of_nat (positiveScore ?t) :: rat) > of_nat (negativeScore ?t) * (15 / 10)"
    by blast
  with p n show ?thesis by simp
qed

lemma analyzeSentiment_negative_example:
  "analyzeSentiment ''This is a poor product with problematic issues and disappointing results'' = Negative"
  by code_simp

section \<open>Key points\<close>




lemma splitRuns_nonempty: "splitRuns P s \<noteq> []"
  by (induction P s rule: splitRuns.induct) (auto split: list.splits)

lemma splitRuns_concat: "concat (splitRuns P s) = filter (\<lambda>c. \<not> P c) s"
proof (induction P s rule: splitRuns.induct)
  case (1 P)
  then show ?case by simp
next
  case (2 P x xs)
  show ?case
  proof (cases "P x")
    case True
    have "filter (\<lambda>c. \<not> P c) xs = filter (\<lambda>c. \<not> P c) (dropWhile P xs)"
      by (induction xs) auto
    with True 2 show ?thesis by simp
  next
    case False
    obtain w ws where ws: "splitRuns P xs = w # ws"
      using splitRuns_nonempty [of P xs] by (cases "splitRuns P xs") auto
    with False 2 show ?thesis by simp
  qed
qed





section \<open>Brand mentions\<close>

lemma position_makeContext: "position (makeContext resp n pos) = pos"
  by (simp add: makeContext_def Let_def)

lemma recordMatch_invariant:
  assumes "mentionsInvariant state"
  shows "mentionsInvariant (recordMatch resp n pos state)"
proof (cases "list_ex (\<lambda>existingPos. \<bar>int existingPos - int pos\<bar> < 10) (fst state)")
  case True
  with assms show ?thesis by (simp add: recordMatch_def Let_def)
next
  case False
  then have far: "\<forall>e \<in> set (fst state). 10 \<le> \<bar>int e - int pos\<bar>"
    by (auto simp: list_ex_iff not_less)
  then have new: "pos \<notin> set (fst state)" by fastforce
  have "spaced (fst state @ [pos])"
    using assms far unfolding mentionsInvariant_def spaced_def
    by (auto simp: abs_minus_commute)
  with assms new False show ?thesis
    by (simp add: recordMatch_def Let_def mentionsInvariant_def setAdd_def position_makeContext)
qed

lemma fold_recordMatch_invariant:
  "mentionsInvariant state \<Longrightarrow> mentionsInvariant (fold (recordMatch resp n) ps state)"
  by (induction ps arbitrary: state) (auto simp: recordMatch_invariant)

lemma scanVariation_invariant:
  "mentionsInvariant state \<Longrightarrow> mentionsInvariant (scanVariation resp v state)"
  by (simp add: scanVariation_def fold_recordMatch_invariant)

lemma fold_scanVariation_invariant:
  "mentionsInvariant state \<Longrightarrow> mentionsInvariant (fold (scanVariation resp) vs state)"
  by (induction vs arbitrary: state) (auto simp: scanVariation_invariant)

lemma sorted_spaced_nth:
  assumes "sorted ps" "spaced ps" "distinct ps" "i < j" "j < length ps"
  shows "ps ! i + 10 \<le> ps ! j"
proof -
  from assms have le: "ps ! i \<le> ps ! j" by (simp add: sorted_nth_mono)
  from assms have ne: "ps ! i \<noteq> ps ! j" by (simp add: nth_eq_iff_index_eq)
  from assms have "ps ! i \<in> set ps" "ps ! j \<in> set ps" by simp_all
  with ne assms(2) have "10 \<le> \<bar>int (ps ! i) - int (ps ! j)\<bar>" by (simp add: spaced_def)
  with le show ?thesis by linarith
qed

lemma extractBrandMentions_sorted_spaced:
  assumes "extractBrandMentions resp brand = Inr contexts"
  shows "\<forall>i j. i < j \<and> j < length contexts \<longrightarrow>
           position (contexts ! i) + 10 \<le> position (contexts ! j)"
proof (cases "brand = [] \<or> resp = []")
  case True
  with assms show ?thesis by (auto simp: extractBrandMentions_def)
next
  case False
  with assms obtain vs where
    c: "contexts = sort_key position (snd (fold (scanVariation resp) vs ([], [])))"
    by (auto simp: extractBrandMentions_def split: sum.splits)
  define state where "state = fold (scanVariation resp) vs ([], [])"
  have inv: "mentionsInvariant state"
    unfolding state_def by (rule fold_scanVariation_invariant) (simp add: mentionsInvariant_def spaced_def)
  let ?ps = "map position contexts"
  have srt: "sorted ?ps" by (simp add: c)
  have "map position (snd state) = fst state" using inv by (simp add: mentionsInvariant_def)
  then have "position ` set (snd state) = set (fst state)" by (metis set_map)
  then have "set ?ps = set (fst state)" by (simp add: c state_def)
  moreover have "spaced (fst state)" using inv by (simp add: mentionsInvariant_def)
  ultimately have sp: "spaced ?ps" by (simp add: spaced_def)
  have "distinct (map position (snd state))" using inv by (simp add: mentionsInvariant_def)
  then have di: "distinct ?ps" by (simp add: c state_def distinct_map)
  show ?thesis
  proof (intro allI impI)
    fix i j assume ij: "i < j \<and> j < length contexts"
    then have "?ps ! i + 10 \<le> ?ps ! j"
      using sorted_spaced_nth [OF srt sp di, of i j] by simp
    with ij show "position (contexts ! i) + 10 \<le> position (contexts ! j)" by simp
  qed
qed

lemma extractBrandMentions_empty:
  "brand = [] \<or> resp = [] \<Longrightarrow> extractBrandMentions resp brand = Inr []"
  by (auto simp: extractBrandMentions_def)

lemma expandAbbreviations_returns:
  "\<forall>w \<in> set ws. toLowerCase w \<notin> set objectPrototypeProperties \<Longrightarrow>
     \<exists>vs'. expandAbbreviations ws vs = Inr vs'"
  by (induction ws arbitrary: vs) (auto simp: abbreviationMap_def split: option.splits)

lemma expandAbbreviations_throws:
  "\<exists>w \<in> set ws. abbreviationMap (toLowerCase w) = InheritedProperty \<Longrightarrow>
     expandAbbreviations ws vs = Inl TypeError"
  by (induction ws arbitrary: vs) (auto split: PropertyValue.splits)

lemma extractBrandMentions_returns:
  assumes "\<forall>w \<in> set (brandWords brand). toLowerCase w \<notin> set objectPrototypeProperties"
  shows "\<exists>contexts. extractBrandMentions resp brand = Inr contexts"
proof -
  obtain vs' where "expandAbbreviations (brandWords brand)
      (fold setAdd (filter (\<lambda>w. length w \<ge> 2) (brandWords brand)) [trim brand]) = Inr vs'"
    using expandAbbreviations_returns [OF assms] by blast
  then show ?thesis
    by (auto simp: extractBrandMentions_def generateBrandVariations_def Let_def brandWords_def)
qed

text \<open>
  C10 states that \<open>extractBrandMentions\<close> returns, for every response and brand name, its
  contexts in ascending order of position, any two at least ten characters apart, and the
  empty list for an empty brand name or response. \<open>extractBrandMentions_sorted_spaced\<close>
  shows the order and the distance of every list that it returns,
  \<open>extractBrandMentions_empty\<close> the empty cases, and \<open>extractBrandMentions_returns\<close> that
  it returns for every brand name none of whose words is a member of \<open>Object.prototype\<close>.
  For a brand name with the word \<open>constructor\<close> it returns nothing: the unguarded lookup
  in the abbreviation table finds the inherited member, and iterating over it throws.
\<close>

theorem extractBrandMentions_throws_on_inherited_key:
  "extractBrandMentions ''Constructor Group is hiring'' ''Constructor Group'' = Inl TypeError"
  by code_simp
section \<open>The orchestrator\<close>

lemma iterationStep_responses:
  "fst (iterationStep opts env i state) =
     fst state @ (if iterationFails opts env i then [] else [projr (runIteration opts env i)])"
  by (cases "runIteration opts env i") (simp_all add: iterationStep_def iterationFails_def)

lemma iterationStep_errors:
  "filter isErrorEvent (snd (iterationStep opts env i state)) =
     filter isErrorEvent (snd state) @ (if iterationFails opts env i then [errorEventFor opts env i] else [])"
  by (cases "runIteration opts env i")
     (simp_all add: iterationStep_def iterationFails_def isErrorEvent_def errorEventFor_def)

lemma loop_responses:
  "fst (fold (iterationStep opts env) is state) =
     fst state @ map (\<lambda>i. projr (runIteration opts env i)) (filter (\<lambda>i. \<not> iterationFails opts env i) is)"
  by (induction "is" arbitrary: state) (simp_all add: iterationStep_responses)

lemma loop_errors:
  "filter isErrorEvent (snd (fold (iterationStep opts env) is state)) =
     filter isErrorEvent (snd state) @ map (errorEventFor opts env) (filter (iterationFails opts env) is)"
  by (induction "is" arbitrary: state) (simp_all add: iterationStep_errors)

lemma iteration_of_response:
  "\<not> iterationFails opts env i \<Longrightarrow> iteration (projr (runIteration opts env i)) = i"
  by (auto simp: iterationFails_def runIteration_def processResult_def Let_def split: sum.splits)

lemma analyzeStability_valid:
  assumes "validConfiguration opts"
  shows "analyzeStability opts env =
     (let state = fold (iterationStep opts env) (iterationRange opts) ([], []) in
      if length (fst state) = 0 then (snd state, Inl AllIterationsFailed)
      else (snd state, Inr (assemble opts env (fst state))))"
  using assms by (simp add: analyzeStability_def validConfiguration_def)

lemma analyzeStability_isolates_failures:
  assumes "validConfiguration opts"
  shows "(isl (snd (analyzeStability opts env)) \<longleftrightarrow> succeeded opts env = [])"
    and "isl (snd (analyzeStability opts env)) \<Longrightarrow> snd (analyzeStability opts env) = Inl AllIterationsFailed"
    and "succeeded opts env \<noteq> [] \<Longrightarrow>
           snd (analyzeStability opts env) = Inr (assemble opts env
               (map (\<lambda>i. projr (runIteration opts env i)) (succeeded opts env)))"
    and "succeeded opts env \<noteq> [] \<Longrightarrow>
           metaIterations (metadata (projr (snd (analyzeStability opts env)))) = length (succeeded opts env)"
    and "succeeded opts env \<noteq> [] \<Longrightarrow>
           map iteration (responses (projr (snd (analyzeStability opts env)))) = succeeded opts env"
    and "filter isErrorEvent (fst (analyzeStability opts env)) = map (errorEventFor opts env) (failed opts env)"
proof -
  let ?state = "fold (iterationStep opts env) (iterationRange opts) ([], [])"
  have rs: "fst ?state = map (\<lambda>i. projr (runIteration opts env i)) (succeeded opts env)"
    by (simp add: loop_responses succeeded_def)
  have ev: "filter isErrorEvent (snd ?state) = map (errorEventFor opts env) (failed opts env)"
    by (simp add: loop_errors failed_def)
  note a = analyzeStability_valid [OF assms, of env]
  show "isl (snd (analyzeStability opts env)) \<longleftrightarrow> succeeded opts env = []"
    by (simp add: a Let_def rs)
  show "isl (snd (analyzeStability opts env)) \<Longrightarrow> snd (analyzeStability opts env) = Inl AllIterationsFailed"
    by (simp add: a Let_def rs split: if_splits)
  show r: "succeeded opts env \<noteq> [] \<Longrightarrow>
           snd (analyzeStability opts env) = Inr (assemble opts env
               (map (\<lambda>i. projr (runIteration opts env i)) (succeeded opts env)))"
    by (simp add: a Let_def rs)
  show "succeeded opts env \<noteq> [] \<Longrightarrow>
           metaIterations (metadata (projr (snd (analyzeStability opts env)))) = length (succeeded opts env)"
    by (simp add: r assemble_def Let_def)
  show "succeeded opts env \<noteq> [] \<Longrightarrow>
           map iteration (responses (projr (snd (analyzeStability opts env)))) = succeeded opts env"
  proof -
    assume ne: "succeeded opts env \<noteq> []"
    have "map (\<lambda>i. iteration (projr (runIteration opts env i))) (succeeded opts env) = succeeded opts env"
      by (rule map_idI) (auto simp: succeeded_def iteration_of_response)
    then have "map iteration (map (\<lambda>i. projr (runIteration opts env i)) (succeeded opts env)) = succeeded opts env"
      by (simp add: comp_def)
    then show ?thesis by (simp add: r [OF ne] assemble_def Let_def)
  qed
  show "filter isErrorEvent (fst (analyzeStability opts env)) = map (errorEventFor opts env) (failed opts env)"
    by (simp add: a Let_def ev)
qed

lemma mentionsFor_safe:
  assumes "brandIsSafe opts"
  shows "\<exists>contexts. mentionsFor opts cleaned = Inr contexts"
proof (cases "brandName opts")
  case None
  then show ?thesis by (simp add: mentionsFor_def)
next
  case (Some b)
  with assms have "\<forall>w \<in> set (brandWords b). toLowerCase w \<notin> set objectPrototypeProperties"
    by (simp add: brandIsSafe_def list_all_iff)
  from extractBrandMentions_returns [OF this, of cleaned] Some show ?thesis
    by (auto simp: mentionsFor_def)
qed

lemma iterationFails_safe:
  assumes "brandIsSafe opts"
  shows "iterationFails opts env i = queryFails env i"
proof (cases "queryOutcome env i")
  case (Inl e)
  then show ?thesis by (simp add: iterationFails_def queryFails_def runIteration_def)
next
  case (Inr result)
  obtain contexts where "mentionsFor opts (cleanResponse (response result)) = Inr contexts"
    using mentionsFor_safe [OF assms] by blast
  with Inr show ?thesis
    by (simp add: iterationFails_def queryFails_def runIteration_def processResult_def Let_def)
qed

lemma constructor_mentions:
  "mentionsFor constructorOptions (cleanResponse ''Constructor Group is hiring'') = Inl TypeError"
  by code_simp

lemma constructor_iteration_throws:
  "runIteration constructorOptions answeringEnvironment i = Inl TypeError"
  by (simp add: runIteration_def processResult_def Let_def answeringEnvironment_def constructor_mentions)

lemma constructor_range: "iterationRange constructorOptions = [1, 2]"
  by code_simp

lemma constructor_valid: "validConfiguration constructorOptions"
  by code_simp

text \<open>
  C1 states that \<open>analyzeStability\<close> raises a fatal error exactly when the query of every
  iteration fails. \<open>analyzeStability_isolates_failures\<close> shows, for a configuration that
  passes the two checks, that the run fails exactly when every iteration fails, with the
  error of total failure, that it otherwise returns a result whose metadata count the
  successful iterations, and that every failed iteration is handed to \<open>onError\<close>, or to
  the console without it; \<open>iterationFails_safe\<close> shows that an iteration fails exactly
  when its query fails, if no word of the brand name is a member of \<open>Object.prototype\<close>.
  With the brand name \<open>Constructor Group\<close> the claim fails: every query succeeds, every
  iteration throws while it extracts the brand mentions, and the run ends in the error of
  total failure.
\<close>

theorem analyzeStability_fails_on_inherited_key:
  "analyzeStability constructorOptions answeringEnvironment =
     ([ErrorCalled \<lparr>errorIteration = 1, errorCause = TypeError\<rparr>,
       ErrorCalled \<lparr>errorIteration = 2, errorCause = TypeError\<rparr>],
      Inl AllIterationsFailed)
   \<and> \<not> queryFails answeringEnvironment 1 \<and> \<not> queryFails answeringEnvironment 2"
proof -
  have on: "onError constructorOptions" by (simp add: constructorOptions_def)
  have s1: "iterationStep constructorOptions answeringEnvironment 1 ([], []) =
     ([], [ErrorCalled \<lparr>errorIteration = 1, errorCause = TypeError\<rparr>])"
    unfolding iterationStep_def constructor_iteration_throws by (simp add: on)
  have s2: "iterationStep constructorOptions answeringEnvironment 2
              ([], [ErrorCalled \<lparr>errorIteration = 1, errorCause = TypeError\<rparr>]) =
     ([], [ErrorCalled \<lparr>errorIteration = 1, errorCause = TypeError\<rparr>,
           ErrorCalled \<lparr>errorIteration = 2, errorCause = TypeError\<rparr>])"
    unfolding iterationStep_def constructor_iteration_throws by (simp add: on)
  have "fold (iterationStep constructorOptions answeringEnvironment) [1, 2] ([], []) =
     ([], [ErrorCalled \<lparr>errorIteration = 1, errorCause = TypeError\<rparr>,
           ErrorCalled \<lparr>errorIteration = 2, errorCause = TypeError\<rparr>])"
    unfolding fold_simps comp_def s1 s2 by simp
  then have "analyzeStability constructorOptions answeringEnvironment =
     ([ErrorCalled \<lparr>errorIteration = 1, errorCause = TypeError\<rparr>,
       ErrorCalled \<lparr>errorIteration = 2, errorCause = TypeError\<rparr>],
      Inl AllIterationsFailed)"
    by (simp add: analyzeStability_valid [OF constructor_valid] constructor_range)
  moreover have "\<not> queryFails answeringEnvironment 1" "\<not> queryFails answeringEnvironment 2"
    by (simp_all add: queryFails_def answeringEnvironment_def)
  ultimately show ?thesis by simp
qed

lemma partial_failure_scenario:
  "metaIterations (metadata (projr (snd (analyzeStability partialOptions partialEnvironment)))) = 3"
  "\<not> isl (snd (analyzeStability partialOptions partialEnvironment))"
  "filter isErrorEvent (fst (analyzeStability partialOptions partialEnvironment)) =
     [ErrorCalled \<lparr>errorIteration = 2, errorCause = QueryRejected ''timeout''\<rparr>,
      ErrorCalled \<lparr>errorIteration = 4, errorCause = QueryRejected ''timeout''\<rparr>]"
proof -
  have valid: "validConfiguration partialOptions" by code_simp
  have safe: "brandIsSafe partialOptions" by (simp add: brandIsSafe_def partialOptions_def)
  have range: "iterationRange partialOptions = [1, 2, 3, 4, 5]" by code_simp
  have fails: "iterationFails partialOptions partialEnvironment i \<longleftrightarrow> i = 2 \<or> i = 4" for i
    by (simp add: iterationFails_safe [OF safe] queryFails_def partialEnvironment_def)
  have s: "succeeded partialOptions partialEnvironment = [1, 3, 5]"
    by (simp add: succeeded_def range fails)
  have f: "failed partialOptions partialEnvironment = [2, 4]"
    by (simp add: failed_def range fails)
  have r: "runIteration partialOptions partialEnvironment i = Inl (QueryRejected ''timeout'')"
    if "i = 2 \<or> i = 4" for i
    using that by (auto simp: runIteration_def partialEnvironment_def)
  note iso = analyzeStability_isolates_failures [OF valid, of partialEnvironment]
  show "metaIterations (metadata (projr (snd (analyzeStability partialOptions partialEnvironment)))) = 3"
    using iso(4) s by simp
  show "\<not> isl (snd (analyzeStability partialOptions partialEnvironment))"
    using iso(1) s by simp
  show "filter isErrorEvent (fst (analyzeStability partialOptions partialEnvironment)) =
     [ErrorCalled \<lparr>errorIteration = 2, errorCause = QueryRejected ''timeout''\<rparr>,
      ErrorCalled \<lparr>errorIteration = 4, errorCause = QueryRejected ''timeout''\<rparr>]"
  proof -
    have on: "onError partialOptions" by (simp add: partialOptions_def)
    show ?thesis using iso(6) f by (simp add: errorEventFor_def r on)
  qed
qed

lemma total_failure_scenario:
  "snd (analyzeStability partialOptions failingEnvironment) = Inl AllIterationsFailed"
  "filter isErrorEvent (fst (analyzeStability partialOptions failingEnvironment)) =
     map (\<lambda>i. ErrorCalled \<lparr>errorIteration = i, errorCause = QueryRejected ''timeout''\<rparr>) [1, 2, 3, 4, 5]"
proof -
  have valid: "validConfiguration partialOptions" by code_simp
  have range: "iterationRange partialOptions = [1, 2, 3, 4, 5]" by code_simp
  have r: "runIteration partialOptions failingEnvironment i = Inl (QueryRejected ''timeout'')" for i
    by (simp add: runIteration_def failingEnvironment_def)
  have fails: "iterationFails partialOptions failingEnvironment i" for i
    by (simp add: iterationFails_def r)
  have s: "succeeded partialOptions failingEnvironment = []"
    by (simp add: succeeded_def fails)
  have f: "failed partialOptions failingEnvironment = [1, 2, 3, 4, 5]"
    by (simp add: failed_def range fails)
  have on: "onError partialOptions" by (simp add: partialOptions_def)
  note iso = analyzeStability_isolates_failures [OF valid, of failingEnvironment]
  from iso(1) s have "isl (snd (analyzeStability partialOptions failingEnvironment))" by simp
  then show "snd (analyzeStability partialOptions failingEnvironment) = Inl AllIterationsFailed"
    by (rule iso(2))
  show "filter isErrorEvent (fst (analyzeStability partialOptions failingEnvironment)) =
     map (\<lambda>i. ErrorCalled \<lparr>errorIteration = i, errorCause = QueryRejected ''timeout''\<rparr>) [1, 2, 3, 4, 5]"
    using iso(6) f by (simp add: errorEventFor_def r on)
qed

end
